theory Spec2Isabelle
  imports Complex_Main
begin

section \<open>Data model\<close>

text \<open>
  A WebSocket object is identified by a handle. A Python \<open>str\<close> is a sequence of Unicode
  code points; \<open>lit\<close> turns an ASCII literal of the source into such a sequence.
\<close>

type_synonym ws = nat
type_synonym pystr = "nat list"

definition lit :: "string \<Rightarrow> pystr" where
  "lit s = map of_char s"

text \<open>
  The exceptions that the modelled code can raise or has a handler for.
  \<open>HTTPException\<close> is the class \<open>websocket.py\<close> and \<open>crud.py\<close> import from
  \<open>http.client\<close>; \<open>HTTPException_fastapi\<close> is the one \<open>main.py\<close> imports from
  \<open>fastapi\<close>. \<open>DBAPIError\<close> stands for whatever the database driver raises
  (a constraint violation, a value that does not fit the column type) and
  \<open>WebSocketDisconnect\<close> for what a transport operation raises once the peer is gone.
  \<open>RuntimeError\<close> is what the socket raises when \<open>accept\<close> is called on it again.
\<close>

datatype exn =
    TypeError
  | ValueError
  | AttributeError
  | ValidationError
  | UnicodeEncodeError
  | JSONDecodeError
  | HTTPException
  | HTTPException_fastapi
  | DBAPIError
  | WebSocketDisconnect
  | RuntimeError

text \<open>
  Outbound text frames. Every frame the server sends is \<open>json.dumps\<close> of either a
  dictionary with the single key \<open>error\<close> or of a message dictionary; the error texts
  are fixed literals of \<open>websocket.py\<close>, one constructor each, in source order
  (lines 56, 69, 95, 100, 117/122, 119).
\<close>

datatype error_text =
    Bad_message_format
  | Chat_or_group_not_found
  | Message_id_missing
  | Message_not_found
  | Internal_server_error
  | Bad_json_format

record payload =
  p_id :: int
  p_chat_id :: int
  p_sender_id :: int
  p_text :: pystr
  p_timestamp :: nat
  p_is_read :: "bool option"
  p_action :: pystr

datatype out_frame = Error_frame error_text | Message_frame payload

text \<open>Rows of the tables \<open>messages\<close> and \<open>groups\<close> (\<open>models.py\<close>).\<close>

record Message =
  m_id :: int
  m_chat_id :: int
  m_sender_id :: int
  m_text :: pystr
  m_timestamp :: nat
  m_is_read :: "bool option"
  m_message_hash :: pystr

record Group =
  g_id :: int
  g_chat_id :: "int option"

text \<open>
  The database as far as the WebSocket code reads and writes it: the primary keys of
  the tables \<open>users\<close> and \<open>chats\<close>, table \<open>groups\<close> by primary key, table \<open>messages\<close> in insertion order,
  the next value of the \<open>messages.id\<close> sequence and the instant \<open>datetime.utcnow\<close>
  returns.
\<close>

record database =
  users :: "int set"
  chats :: "int set"
  groups :: "int \<rightharpoonup> Group"
  messages :: "Message list"
  next_id :: int
  utcnow :: nat

text \<open>
  The state the coroutines share: the \<open>active_connections\<close> dictionary of the one
  \<open>ConnectionManager\<close>, what each socket has been sent so far, the sockets that have
  been accepted (their handshake is done; a socket never leaves this set), the sockets
  whose peer is gone (every transport operation on them raises), and the database.
\<close>

record world =
  active_connections :: "int \<rightharpoonup> ws list"
  sent :: "ws \<Rightarrow> out_frame list"
  accepted :: "ws set"
  gone :: "ws set"
  store :: database

type_synonym 'a io = "world \<Rightarrow> (exn + 'a) \<times> world"

section \<open>ConnectionManager (websocket.py, lines 18-40)\<close>

text \<open>
  The transport. \<open>WebSocket.accept\<close> completes the handshake once: on a socket that
  has been accepted already it raises \<open>RuntimeError\<close> (the socket's state admits only
  sends and a close from then on), and it raises when the peer is gone. \<open>send_text\<close>
  is what the receive loop calls on sockets that \<open>connect\<close> has accepted: it raises
  when the peer is gone and otherwise adds the frame to what the socket has been sent.
\<close>

definition accept :: "ws \<Rightarrow> unit io" where
  "accept w st =
     (if w \<in> accepted st then (Inl RuntimeError, st)
      else if w \<in> gone st then (Inl WebSocketDisconnect, st)
      else (Inr (), st\<lparr>accepted := insert w (accepted st)\<rparr>))"

definition send_text :: "ws \<Rightarrow> out_frame \<Rightarrow> unit io" where
  "send_text w msg st =
     (if w \<in> gone st then (Inl WebSocketDisconnect, st)
      else (Inr (), st\<lparr>sent := (sent st)(w := sent st w @ [msg])\<rparr>))"

definition connect :: "ws \<Rightarrow> int \<Rightarrow> unit io" where
  "connect websocket chat_id st =
     (case accept websocket st of
        (Inl e, st') \<Rightarrow> (Inl e, st')
      | (Inr _, st') \<Rightarrow>
          (let ac = (if chat_id \<notin> dom (active_connections st')
                     then (active_connections st')(chat_id \<mapsto> [])
                     else active_connections st')
           in (Inr (), st'\<lparr>active_connections :=
                 ac(chat_id \<mapsto> the (ac chat_id) @ [websocket])\<rparr>)))"

text \<open>
  \<open>list.remove\<close> deletes the first occurrence and raises \<open>ValueError\<close> when there is
  none, before anything is changed.
\<close>

definition disconnect :: "ws \<Rightarrow> int \<Rightarrow> unit io" where
  "disconnect websocket chat_id st =
     (case active_connections st chat_id of
        None \<Rightarrow> (Inr (), st)
      | Some conns \<Rightarrow>
          if websocket \<notin> set conns then (Inl ValueError, st)
          else (let conns' = remove1 websocket conns
                in if conns' = []
                   then (Inr (), st\<lparr>active_connections := (active_connections st)(chat_id := None)\<rparr>)
                   else (Inr (), st\<lparr>active_connections := (active_connections st)(chat_id \<mapsto> conns')\<rparr>)))"

definition send_personal_message :: "out_frame \<Rightarrow> ws \<Rightarrow> unit io" where
  "send_personal_message message websocket st = send_text websocket message st"

fun broadcast_loop :: "ws list \<Rightarrow> out_frame \<Rightarrow> unit io" where
  "broadcast_loop [] message st = (Inr (), st)"
| "broadcast_loop (connection # rest) message st =
     (case send_text connection message st of
        (Inl e, st') \<Rightarrow> (Inl e, st')
      | (Inr _, st') \<Rightarrow> broadcast_loop rest message st')"

definition broadcast :: "int \<Rightarrow> out_frame \<Rightarrow> unit io" where
  "broadcast chat_id message st =
     (case active_connections st chat_id of
        None \<Rightarrow> (Inr (), st)
      | Some conns \<Rightarrow> broadcast_loop conns message st)"

section \<open>Inbound frames and library functions\<close>

text \<open>
  What \<open>json.loads\<close> returns. A dictionary is the list of its items (\<open>map_of\<close> reads
  it); \<open>JFloat\<close> holds the value of a finite float. Python's \<open>None\<close> is \<open>JNull\<close>.
\<close>

datatype json =
    JNull
  | JBool bool
  | JInt int
  | JFloat rat
  | JStr pystr
  | JArr "json list"
  | JObj "(pystr \<times> json) list"

text \<open>\<open>dict.get\<close> with the default \<open>None\<close>; any other JSON value has no \<open>get\<close>.\<close>

fun py_get :: "json \<Rightarrow> pystr \<Rightarrow> exn + json" where
  "py_get (JObj items) key = Inr (case map_of items key of None \<Rightarrow> JNull | Some v \<Rightarrow> v)"
| "py_get _ key = Inl AttributeError"

text \<open>Truth value testing, as \<open>not x\<close> and \<open>if x\<close> apply it.\<close>

fun truthy :: "json \<Rightarrow> bool" where
  "truthy JNull = False"
| "truthy (JBool b) = b"
| "truthy (JInt n) = (n \<noteq> 0)"
| "truthy (JFloat r) = (r \<noteq> 0)"
| "truthy (JStr s) = (s \<noteq> [])"
| "truthy (JArr xs) = (xs \<noteq> [])"
| "truthy (JObj items) = (items \<noteq> [])"

text \<open>
  Library functions the repository calls and does not define, taken as parameters:
  the SHA-256 hex digest of a byte string; pydantic's validation of a value for an
  \<open>int\<close> and for a \<open>str\<close> field (\<open>None\<close> when it raises \<open>ValidationError\<close>); the
  database driver's conversion of a value bound to an integer column (\<open>None\<close> when it
  raises); the \<open>sub\<close> entry of a decoded token (\<open>None\<close> when \<open>jwt.decode\<close> raises
  \<open>JWTError\<close> or the entry is missing); and the builtin \<open>int\<close> on a string (\<open>None\<close> when
  it raises \<open>ValueError\<close>).
\<close>

record externals =
  sha256_hexdigest :: "nat list \<Rightarrow> pystr"
  pydantic_int :: "json \<Rightarrow> int option"
  pydantic_str :: "json \<Rightarrow> pystr option"
  sql_int :: "json \<Rightarrow> int option"
  jwt_sub :: "pystr \<Rightarrow> pystr option"
  int_of_str :: "pystr \<Rightarrow> int option"

section \<open>Message fingerprint (crud.py, line 54)\<close>

text \<open>\<open>str\<close> of an integer: decimal digits, with a minus sign for a negative one.\<close>

fun digits10 :: "nat \<Rightarrow> pystr" where
  "digits10 n = (if n < 10 then [48 + n] else digits10 (n div 10) @ [48 + n mod 10])"

definition str_int :: "int \<Rightarrow> pystr" where
  "str_int i = (if i < 0 then 45 # digits10 (nat (- i)) else digits10 (nat i))"

text \<open>The f-string \<open>f"{message.chat_id}_{message.sender_id}_{message.text}"\<close>.\<close>

definition hash_input :: "int \<Rightarrow> int \<Rightarrow> pystr \<Rightarrow> pystr" where
  "hash_input chat_id sender_id text = str_int chat_id @ lit ''_'' @ str_int sender_id @ lit ''_'' @ text"

text \<open>
  \<open>str.encode()\<close>: UTF-8, bytes as numbers below 256. A surrogate code point has no
  encoding (\<open>UnicodeEncodeError\<close>); a Python string holds no value from 0x110000 on.
\<close>

definition utf8_char :: "nat \<Rightarrow> nat list option" where
  "utf8_char c =
     (if c < 0x80 then Some [c]
      else if c < 0x800 then Some [0xC0 + c div 0x40, 0x80 + c mod 0x40]
      else if 0xD800 \<le> c \<and> c < 0xE000 then None
      else if c < 0x10000 then
        Some [0xE0 + c div 0x1000, 0x80 + c div 0x40 mod 0x40, 0x80 + c mod 0x40]
      else if c < 0x110000 then
        Some [0xF0 + c div 0x40000, 0x80 + c div 0x1000 mod 0x40,
              0x80 + c div 0x40 mod 0x40, 0x80 + c mod 0x40]
      else None)"

fun encode :: "pystr \<Rightarrow> exn + nat list" where
  "encode [] = Inr []"
| "encode (c # cs) =
     (case utf8_char c of
        None \<Rightarrow> Inl UnicodeEncodeError
      | Some bs \<Rightarrow> (case encode cs of Inl e \<Rightarrow> Inl e | Inr rest \<Rightarrow> Inr (bs @ rest)))"

definition message_hash_of :: "externals \<Rightarrow> int \<Rightarrow> int \<Rightarrow> pystr \<Rightarrow> exn + pystr" where
  "message_hash_of ext chat_id sender_id text =
     (case encode (hash_input chat_id sender_id text) of
        Inl e \<Rightarrow> Inl e
      | Inr bytes \<Rightarrow> Inr (sha256_hexdigest ext bytes))"

section \<open>Persistence (schemas.py, crud.py)\<close>

record MessageCreate =
  mc_chat_id :: int
  mc_sender_id :: int
  mc_text :: pystr
  mc_is_read :: "bool option"

text \<open>
  Constructing \<open>schemas.MessageCreate\<close> validates the fields. The chat id comes from a
  database row (an integer, or \<open>None\<close> for a group row without chat), sender and text
  from the frame.
\<close>

definition new_MessageCreate ::
  "externals \<Rightarrow> int option \<Rightarrow> json \<Rightarrow> json \<Rightarrow> bool option \<Rightarrow> exn + MessageCreate" where
  "new_MessageCreate ext chat_id sender_id text is_read =
     (case (chat_id, pydantic_int ext sender_id, pydantic_str ext text) of
        (Some c, Some s, Some t) \<Rightarrow>
          Inr \<lparr>mc_chat_id = c, mc_sender_id = s, mc_text = t, mc_is_read = is_read\<rparr>
      | _ \<Rightarrow> Inl ValidationError)"

text \<open>
  \<open>create_message\<close> (lines 53-71). The duplicate branch evaluates
  \<open>HTTPException(status_code=400, detail=...)\<close> with the class imported from
  \<open>http.client\<close>, a plain \<open>Exception\<close> subclass that takes no keyword arguments: the
  constructor call itself raises \<open>TypeError\<close>. The commit checks the foreign keys of
  the new row; the sequence value it drew is used up either way.
\<close>

definition create_message :: "externals \<Rightarrow> MessageCreate \<Rightarrow> database \<Rightarrow> (exn + Message) \<times> database" where
  "create_message ext message db =
     (case message_hash_of ext (mc_chat_id message) (mc_sender_id message) (mc_text message) of
        Inl e \<Rightarrow> (Inl e, db)
      | Inr message_hash \<Rightarrow>
          if list_ex (\<lambda>m. m_message_hash m = message_hash) (messages db)
          then (Inl TypeError, db)
          else (let db_message =
                      \<lparr>m_id = next_id db, m_chat_id = mc_chat_id message,
                       m_sender_id = mc_sender_id message, m_text = mc_text message,
                       m_timestamp = utcnow db, m_is_read = mc_is_read message,
                       m_message_hash = message_hash\<rparr>
                in if mc_chat_id message \<in> chats db \<and> mc_sender_id message \<in> users db
                   then (Inr db_message,
                         db\<lparr>messages := messages db @ [db_message], next_id := next_id db + 1\<rparr>)
                   else (Inl DBAPIError, db\<lparr>next_id := next_id db + 1\<rparr>)))"

text \<open>
  \<open>mark_message_as_read\<close> (lines 85-92): the first row with the id, if any, gets
  \<open>is_read = True\<close> and is returned.
\<close>

fun set_read :: "int \<Rightarrow> Message list \<Rightarrow> Message list" where
  "set_read n [] = []"
| "set_read n (m # ms) = (if m_id m = n then m\<lparr>m_is_read := Some True\<rparr> # ms else m # set_read n ms)"

definition mark_message_as_read :: "externals \<Rightarrow> json \<Rightarrow> database \<Rightarrow> (exn + Message option) \<times> database" where
  "mark_message_as_read ext message_id db =
     (case sql_int ext message_id of
        None \<Rightarrow> (Inl DBAPIError, db)
      | Some n \<Rightarrow>
          (case find (\<lambda>m. m_id m = n) (messages db) of
             None \<Rightarrow> (Inr None, db)
           | Some db_message \<Rightarrow>
               (Inr (Some (db_message\<lparr>m_is_read := Some True\<rparr>)),
                db\<lparr>messages := set_read n (messages db)\<rparr>)))"

section \<open>Session handler (websocket.py, lines 44-125)\<close>

text \<open>The dictionary handed to \<open>json.dumps\<close> at lines 82-90 and 103-111.\<close>

definition message_frame :: "Message \<Rightarrow> string \<Rightarrow> out_frame" where
  "message_frame message action =
     Message_frame \<lparr>p_id = m_id message, p_chat_id = m_chat_id message,
                    p_sender_id = m_sender_id message, p_text = m_text message,
                    p_timestamp = m_timestamp message, p_is_read = m_is_read message,
                    p_action = lit action\<rparr>"

text \<open>
  \<open>db.get(models.Group, id)\<close> or \<open>db.get(models.Chat, id)\<close>, then the expression
  \<open>chat.id if not is_group else chat.chat_id\<close> of line 73: \<open>None\<close> when there is no row,
  else the value of that expression.
\<close>

definition get_chat :: "database \<Rightarrow> int \<Rightarrow> bool \<Rightarrow> int option option" where
  "get_chat db chat_or_group_id is_group =
     (if is_group
      then (case groups db chat_or_group_id of None \<Rightarrow> None | Some g \<Rightarrow> Some (g_chat_id g))
      else (if chat_or_group_id \<in> chats db then Some (Some chat_or_group_id) else None))"

text \<open>Lines 63-90, the branch \<open>action == "send_message"\<close>.\<close>

definition on_send_message :: "externals \<Rightarrow> ws \<Rightarrow> int \<Rightarrow> bool \<Rightarrow> json \<Rightarrow> json \<Rightarrow> unit io" where
  "on_send_message ext websocket chat_or_group_id is_group sender_id text st =
     (case get_chat (store st) chat_or_group_id is_group of
        None \<Rightarrow> send_text websocket (Error_frame Chat_or_group_not_found) st
      | Some target \<Rightarrow>
          (case new_MessageCreate ext target sender_id text (Some False) of
             Inl e \<Rightarrow> (Inl e, st)
           | Inr message_create \<Rightarrow>
               (case create_message ext message_create (store st) of
                  (Inl e, db') \<Rightarrow> (Inl e, st\<lparr>store := db'\<rparr>)
                | (Inr message, db') \<Rightarrow>
                    broadcast chat_or_group_id (message_frame message ''new_message'')
                      (st\<lparr>store := db'\<rparr>))))"

text \<open>Lines 93-111, the branch \<open>action == "mark_as_read"\<close>.\<close>

definition on_mark_as_read :: "externals \<Rightarrow> ws \<Rightarrow> int \<Rightarrow> json \<Rightarrow> unit io" where
  "on_mark_as_read ext websocket chat_or_group_id message_data st =
     (case py_get message_data (lit ''message_id'') of
        Inl e \<Rightarrow> (Inl e, st)
      | Inr message_id \<Rightarrow>
          if \<not> truthy message_id
          then send_text websocket (Error_frame Message_id_missing) st
          else (case mark_message_as_read ext message_id (store st) of
                  (Inl e, db') \<Rightarrow> (Inl e, st\<lparr>store := db'\<rparr>)
                | (Inr None, db') \<Rightarrow>
                    send_text websocket (Error_frame Message_not_found) (st\<lparr>store := db'\<rparr>)
                | (Inr (Some message), db') \<Rightarrow>
                    broadcast chat_or_group_id (message_frame message ''message_read'')
                      (st\<lparr>store := db'\<rparr>)))"

text \<open>The body of the inner \<open>try\<close> (lines 62-111): no branch for any other action.\<close>

definition dispatch ::
  "externals \<Rightarrow> ws \<Rightarrow> int \<Rightarrow> bool \<Rightarrow> json \<Rightarrow> json \<Rightarrow> json \<Rightarrow> json \<Rightarrow> unit io" where
  "dispatch ext websocket chat_or_group_id is_group message_data sender_id text action st =
     (if action = JStr (lit ''send_message'')
      then on_send_message ext websocket chat_or_group_id is_group sender_id text st
      else if action = JStr (lit ''mark_as_read'')
      then on_mark_as_read ext websocket chat_or_group_id message_data st
      else (Inr (), st))"

text \<open>
  The inner \<open>try\<close> with its handlers (lines 61-117). The first handler reads
  \<open>e.detail\<close>, which an \<open>http.client.HTTPException\<close> does not have: \<open>AttributeError\<close>
  leaves the handler. Every other exception is answered with the internal-error frame.
\<close>

definition inner_try ::
  "externals \<Rightarrow> ws \<Rightarrow> int \<Rightarrow> bool \<Rightarrow> json \<Rightarrow> json \<Rightarrow> json \<Rightarrow> json \<Rightarrow> unit io" where
  "inner_try ext websocket chat_or_group_id is_group message_data sender_id text action st =
     (case dispatch ext websocket chat_or_group_id is_group message_data sender_id text action st of
        (Inr u, st') \<Rightarrow> (Inr u, st')
      | (Inl HTTPException, st') \<Rightarrow> (Inl AttributeError, st')
      | (Inl e, st') \<Rightarrow> send_text websocket (Error_frame Internal_server_error) st')"

text \<open>
  Lines 50-117: decode, read the three fields, check sender and text, dispatch.
  \<open>None\<close> is a text that \<open>json.loads\<close> rejects.
\<close>

definition frame_body :: "externals \<Rightarrow> ws \<Rightarrow> int \<Rightarrow> bool \<Rightarrow> json option \<Rightarrow> unit io" where
  "frame_body ext websocket chat_or_group_id is_group data st =
     (case data of
        None \<Rightarrow> (Inl JSONDecodeError, st)
      | Some message_data \<Rightarrow>
          (case py_get message_data (lit ''sender_id'') of
             Inl e \<Rightarrow> (Inl e, st)
           | Inr sender_id \<Rightarrow>
          (case py_get message_data (lit ''text'') of
             Inl e \<Rightarrow> (Inl e, st)
           | Inr text \<Rightarrow>
          (case py_get message_data (lit ''action'') of
             Inl e \<Rightarrow> (Inl e, st)
           | Inr action \<Rightarrow>
               if \<not> truthy sender_id \<or> \<not> truthy text
               then send_text websocket (Error_frame Bad_message_format) st
               else inner_try ext websocket chat_or_group_id is_group
                      message_data sender_id text action st))))"

text \<open>
  One pass of the loop body after \<open>receive_text\<close> (lines 49-122). \<open>Inr\<close>: the loop goes
  on; \<open>Inl\<close>: the exception reaches the handler of line 123.
\<close>

definition handle_frame :: "externals \<Rightarrow> ws \<Rightarrow> int \<Rightarrow> bool \<Rightarrow> json option \<Rightarrow> unit io" where
  "handle_frame ext websocket chat_or_group_id is_group data st =
     (case frame_body ext websocket chat_or_group_id is_group data st of
        (Inr u, st') \<Rightarrow> (Inr u, st')
      | (Inl JSONDecodeError, st') \<Rightarrow> send_text websocket (Error_frame Bad_json_format) st'
      | (Inl e, st') \<Rightarrow> send_text websocket (Error_frame Internal_server_error) st')"

text \<open>
  The \<open>while True\<close> loop over the frames the client sends before it goes away:
  \<open>receive_text\<close> raises when the peer is gone or nothing more arrives, and every
  exception that leaves the loop body ends in \<open>manager.disconnect\<close> (line 124).
\<close>

fun receive_loop :: "externals \<Rightarrow> ws \<Rightarrow> int \<Rightarrow> bool \<Rightarrow> json option list \<Rightarrow> unit io" where
  "receive_loop ext websocket chat_or_group_id is_group [] st =
     disconnect websocket chat_or_group_id st"
| "receive_loop ext websocket chat_or_group_id is_group (data # later) st =
     (if websocket \<in> gone st then disconnect websocket chat_or_group_id st
      else (case handle_frame ext websocket chat_or_group_id is_group data st of
              (Inr _, st') \<Rightarrow> receive_loop ext websocket chat_or_group_id is_group later st'
            | (Inl e, st') \<Rightarrow> disconnect websocket chat_or_group_id st'))"

definition websocket_endpoint :: "externals \<Rightarrow> ws \<Rightarrow> int \<Rightarrow> bool \<Rightarrow> json option list \<Rightarrow> unit io" where
  "websocket_endpoint ext websocket chat_or_group_id is_group frames st =
     (case connect websocket chat_or_group_id st of
        (Inl e, st') \<Rightarrow> (Inl e, st')
      | (Inr _, st') \<Rightarrow> receive_loop ext websocket chat_or_group_id is_group frames st')"

section \<open>Connection route (main.py, lines 30-74)\<close>

record query_params =
  q_token :: "pystr option"
  q_chat_id :: "pystr option"
  q_group_id :: "pystr option"

datatype close_reason = Token_required | Bad_token | Chat_or_group_required

text \<open>
  How \<open>websocket_route\<close> ends: it closes the socket with code 1008 and a reason, or
  the call of \<open>websocket_endpoint\<close> returns, or an exception leaves the route.
\<close>

datatype route_result = Policy_violation close_reason | Returned | Raised exn

definition get_current_user_websocket :: "externals \<Rightarrow> pystr \<Rightarrow> exn + pystr" where
  "get_current_user_websocket ext token =
     (case jwt_sub ext token of
        None \<Rightarrow> Inl HTTPException_fastapi
      | Some email \<Rightarrow> Inr email)"

text \<open>
  A call of \<open>websocket_endpoint\<close> with two positional arguments, \<open>is_group\<close> and
  further keyword arguments. The parameters are \<open>websocket\<close>, \<open>chat_or_group_id\<close> and
  \<open>is_group\<close> (websocket.py, line 44); a keyword that is none of them raises
  \<open>TypeError\<close> before the body runs.
\<close>

definition call_websocket_endpoint ::
  "externals \<Rightarrow> ws \<Rightarrow> int \<Rightarrow> bool \<Rightarrow> (string \<times> pystr) list \<Rightarrow> json option list \<Rightarrow> unit io" where
  "call_websocket_endpoint ext websocket chat_or_group_id is_group keywords frames st =
     (if list_ex (\<lambda>(name, value). name \<notin> set [''websocket'', ''chat_or_group_id'', ''is_group''])
           keywords
      then (Inl TypeError, st)
      else websocket_endpoint ext websocket chat_or_group_id is_group frames st)"

definition route_result_of :: "(exn + unit) \<times> world \<Rightarrow> route_result \<times> world" where
  "route_result_of r = (case r of (Inl e, st) \<Rightarrow> (Raised e, st) | (Inr _, st) \<Rightarrow> (Returned, st))"

definition websocket_route ::
  "externals \<Rightarrow> ws \<Rightarrow> query_params \<Rightarrow> json option list \<Rightarrow> world \<Rightarrow> route_result \<times> world" where
  "websocket_route ext websocket params frames st =
     (case q_token params of
        None \<Rightarrow> (Policy_violation Token_required, st)
      | Some token \<Rightarrow>
          if token = [] then (Policy_violation Token_required, st)
          else (case get_current_user_websocket ext token of
                  Inl e \<Rightarrow> (Policy_violation Bad_token, st)
                | Inr email \<Rightarrow>
                    (let chat_id = q_chat_id params; group_id = q_group_id params
                     in if (chat_id = None \<or> chat_id = Some []) \<and> (group_id = None \<or> group_id = Some [])
                        then (Policy_violation Chat_or_group_required, st)
                        else (case accept websocket st of
                                (Inl e, st') \<Rightarrow> (Raised e, st')
                              | (Inr _, st') \<Rightarrow>
                                  if \<not> (chat_id = None \<or> chat_id = Some [])
                                  then (case int_of_str ext (the chat_id) of
                                          None \<Rightarrow> (Raised ValueError, st')
                                        | Some n \<Rightarrow>
                                            route_result_of
                                              (call_websocket_endpoint ext websocket n False
                                                 [(''user_email'', email)] frames st'))
                                  else if \<not> (group_id = None \<or> group_id = Some [])
                                  then (case int_of_str ext (the group_id) of
                                          None \<Rightarrow> (Raised ValueError, st')
                                        | Some n \<Rightarrow>
                                            route_result_of
                                              (call_websocket_endpoint ext websocket n True
                                                 [(''user_email'', email)] frames st'))
                                  else (Returned, st')))))"

section \<open>Runs of the server\<close>

text \<open>
  The registry starts empty (\<open>manager = ConnectionManager()\<close>, line 42) and no socket
  has been accepted. The coroutines
  interleave between frames: a run is a sequence of manager calls, processed frames of
  any connection, and peers going away.
\<close>

definition new_world :: "database \<Rightarrow> world" where
  "new_world db =
     \<lparr>active_connections = Map.empty, sent = (\<lambda>w. []), accepted = {}, gone = {}, store = db\<rparr>"

datatype event =
    Connect ws int
  | Disconnect ws int
  | Frame ws int bool "json option"
  | Peer_gone ws

fun step :: "externals \<Rightarrow> event \<Rightarrow> world \<Rightarrow> world" where
  "step ext (Connect w c) st = snd (connect w c st)"
| "step ext (Disconnect w c) st = snd (disconnect w c st)"
| "step ext (Frame w c is_group data) st = snd (handle_frame ext w c is_group data st)"
| "step ext (Peer_gone w) st = st\<lparr>gone := insert w (gone st)\<rparr>"

fun run :: "externals \<Rightarrow> event list \<Rightarrow> world \<Rightarrow> world" where
  "run ext [] st = st"
| "run ext (ev # evs) st = run ext evs (step ext ev st)"

section \<open>Concrete data for evaluation\<close>

definition no_rows :: database where
  "no_rows = \<lparr>users = {}, chats = {}, groups = Map.empty, messages = [], next_id = 1, utcnow = 0\<rparr>"

definition hello_row :: Message where
  "hello_row = \<lparr>m_id = 1, m_chat_id = 7, m_sender_id = 1, m_text = lit ''hi'', m_timestamp = 0,
                 m_is_read = Some False, m_message_hash = lit ''h1''\<rparr>"

definition sample_externals :: externals where
  "sample_externals =
     \<lparr>sha256_hexdigest = (\<lambda>bytes. bytes),
      pydantic_int = (\<lambda>v. case v of JInt n \<Rightarrow> Some n | _ \<Rightarrow> None),
      pydantic_str = (\<lambda>v. case v of JStr s \<Rightarrow> Some s | _ \<Rightarrow> None),
      sql_int = (\<lambda>v. case v of JInt n \<Rightarrow> Some n | _ \<Rightarrow> None),
      jwt_sub = (\<lambda>token. if token = lit ''good'' then Some (lit ''a@b.c'') else None),
      int_of_str = (\<lambda>s. if s = lit ''7'' then Some 7 else if s = lit ''9'' then Some 9 else None)\<rparr>"

text \<open>Three sockets registered for conversation 7, the second one's peer gone.\<close>

definition three_members :: world where
  "three_members =
     (snd (connect 3 7 (snd (connect 2 7 (snd (connect 1 7 (new_world no_rows)))))))\<lparr>gone := {2}\<rparr>"

text \<open>
  Conversation 7 with users 1 and 2, one stored unread message, and sockets 1 and 2
  registered for it.
\<close>

definition chat7_db :: database where
  "chat7_db = \<lparr>users = {1, 2}, chats = {7}, groups = Map.empty, messages = [hello_row],
               next_id = 2, utcnow = 0\<rparr>"

definition two_members :: world where
  "two_members = snd (connect 2 7 (snd (connect 1 7 (new_world chat7_db))))"

text \<open>
  The same conversation before any message, and the frame
  \<open>{"action": "send_message", "sender_id": 1, "text": "hi"}\<close>.
\<close>

definition fresh_chat7 :: world where
  "fresh_chat7 = two_members\<lparr>store := (store two_members)\<lparr>messages := [], next_id := 1\<rparr>\<rparr>"

definition hi_frame :: "json option" where
  "hi_frame = Some (JObj [(lit ''action'', JStr (lit ''send_message'')),
                          (lit ''sender_id'', JInt 1),
                          (lit ''text'', JStr (lit ''hi''))])"

section \<open>Reading a decimal numeral back\<close>

text \<open>The number a string of decimal digits denotes; used to show that \<open>str\<close> loses nothing.\<close>

definition decimal_value :: "pystr \<Rightarrow> nat" where
  "decimal_value ds = foldl (\<lambda>a d. 10 * a + (d - 48)) 0 ds"

text \<open>The length of a UTF-8 sequence, read off its first byte.\<close>

definition utf8_width :: "nat \<Rightarrow> nat" where
  "utf8_width b0 = (if b0 < 0x80 then 1 else if b0 < 0xE0 then 2 else if b0 < 0xF0 then 3 else 4)"

text \<open>A stand-in hash under which all inputs collide.\<close>

definition colliding_externals :: externals where
  "colliding_externals = sample_externals\<lparr>sha256_hexdigest := (\<lambda>bytes. [])\<rparr>"

section \<open>Notions used in the statements about duplicates\<close>

text \<open>
  Every stored row carries the hash of its own chat id, sender id and text, as the rows
  that \<open>create_message\<close> inserts do.
\<close>

definition hashes_consistent :: "externals \<Rightarrow> database \<Rightarrow> bool" where
  "hashes_consistent ext db =
     list_all (\<lambda>m. message_hash_of ext (m_chat_id m) (m_sender_id m) (m_text m)
                     = Inr (m_message_hash m)) (messages db)"

text \<open>The number of stored messages with a given chat id, sender id and text.\<close>

definition stored_count :: "database \<Rightarrow> int \<Rightarrow> int \<Rightarrow> pystr \<Rightarrow> nat" where
  "stored_count db c s t =
     length (filter (\<lambda>m. m_chat_id m = c \<and> m_sender_id m = s \<and> m_text m = t) (messages db))"

text \<open>
  The received text is a \<open>send_message\<close> frame that, on a connection bound to
  \<open>chat_or_group_id\<close>, asks to store text \<open>t\<close> of sender \<open>s\<close> in chat \<open>c\<close>: sender and
  text pass the check of line 55 and validate to \<open>s\<close> and \<open>t\<close>, and the conversation
  resolves to chat \<open>c\<close>.
\<close>

definition is_send_frame ::
  "externals \<Rightarrow> database \<Rightarrow> int \<Rightarrow> bool \<Rightarrow> json option \<Rightarrow> int \<Rightarrow> int \<Rightarrow> pystr \<Rightarrow> bool" where
  "is_send_frame ext db chat_or_group_id is_group data c s t =
     (case data of
        Some (JObj items) \<Rightarrow>
          map_of items (lit ''action'') = Some (JStr (lit ''send_message''))
          \<and> (case map_of items (lit ''sender_id'') of
                None \<Rightarrow> False
              | Some v \<Rightarrow> truthy v \<and> pydantic_int ext v = Some s)
          \<and> (case map_of items (lit ''text'') of
                None \<Rightarrow> False
              | Some v \<Rightarrow> truthy v \<and> pydantic_str ext v = Some t)
          \<and> get_chat db chat_or_group_id is_group = Some (Some c)
      | _ \<Rightarrow> False)"

section \<open>Properties of the connection registry and of broadcast\<close>

lemma send_text_registry [simp]:
  "active_connections (snd (send_text w msg st)) = active_connections st"
  by (simp add: send_text_def)

lemma send_text_store [simp]: "store (snd (send_text w msg st)) = store st"
  by (simp add: send_text_def)

lemma send_text_gone [simp]: "gone (snd (send_text w msg st)) = gone st"
  by (simp add: send_text_def)

lemma send_text_accepted [simp]: "accepted (snd (send_text w msg st)) = accepted st"
  by (simp add: send_text_def)

text \<open>
  The loop of \<open>broadcast\<close> in closed form: it serves the entries in list order up to
  the first one whose peer is gone, and raises there.
\<close>

lemma broadcast_loop_eq:
  "broadcast_loop conns msg st =
     ((if set conns \<inter> gone st = {} then Inr () else Inl WebSocketDisconnect),
      st\<lparr>sent := (\<lambda>w. sent st w @
         replicate (count_list (takeWhile (\<lambda>c. c \<notin> gone st) conns) w) msg)\<rparr>)"
proof (induction conns arbitrary: st)
  case Nil
  then show ?case by simp
next
  case (Cons c cs)
  show ?case
  proof (cases "c \<in> gone st")
    case True
    then show ?thesis by (simp add: send_text_def)
  next
    case False
    then show ?thesis
      by (simp add: send_text_def Cons.IH fun_eq_iff replicate_app_Cons_same)
  qed
qed

lemma broadcast_registry [simp]:
  "active_connections (snd (broadcast c msg st)) = active_connections st"
  by (simp add: broadcast_def broadcast_loop_eq split: option.splits)

lemma broadcast_store [simp]: "store (snd (broadcast c msg st)) = store st"
  by (simp add: broadcast_def broadcast_loop_eq split: option.splits)

lemma broadcast_gone [simp]: "gone (snd (broadcast c msg st)) = gone st"
  by (simp add: broadcast_def broadcast_loop_eq split: option.splits)

lemma broadcast_accepted [simp]: "accepted (snd (broadcast c msg st)) = accepted st"
  by (simp add: broadcast_def broadcast_loop_eq split: option.splits)

lemma connect_no_empty:
  "active_connections st k \<noteq> Some [] \<Longrightarrow> active_connections (snd (connect w c st)) k \<noteq> Some []"
  by (auto simp: connect_def accept_def Let_def split: if_splits)

lemma disconnect_no_empty:
  "active_connections st k \<noteq> Some [] \<Longrightarrow> active_connections (snd (disconnect w c st)) k \<noteq> Some []"
  by (auto simp: disconnect_def Let_def split: option.splits if_splits)

subsection \<open>Processing a frame touches neither the registry nor the state of the sockets\<close>

lemma on_send_message_registry [simp]:
  "active_connections (snd (on_send_message ext w c g sid tx st)) = active_connections st"
  by (simp add: on_send_message_def split: option.splits sum.splits prod.splits)

lemma on_send_message_gone [simp]:
  "gone (snd (on_send_message ext w c g sid tx st)) = gone st"
  by (simp add: on_send_message_def split: option.splits sum.splits prod.splits)

lemma on_send_message_accepted [simp]:
  "accepted (snd (on_send_message ext w c g sid tx st)) = accepted st"
  by (simp add: on_send_message_def split: option.splits sum.splits prod.splits)

lemma on_mark_as_read_registry [simp]:
  "active_connections (snd (on_mark_as_read ext w c md st)) = active_connections st"
  by (simp add: on_mark_as_read_def split: option.splits sum.splits prod.splits)

lemma on_mark_as_read_gone [simp]:
  "gone (snd (on_mark_as_read ext w c md st)) = gone st"
  by (simp add: on_mark_as_read_def split: option.splits sum.splits prod.splits)

lemma on_mark_as_read_accepted [simp]:
  "accepted (snd (on_mark_as_read ext w c md st)) = accepted st"
  by (simp add: on_mark_as_read_def split: option.splits sum.splits prod.splits)

lemma dispatch_registry [simp]:
  "active_connections (snd (dispatch ext w c g md sid tx act st)) = active_connections st"
  by (simp add: dispatch_def)

lemma dispatch_gone [simp]:
  "gone (snd (dispatch ext w c g md sid tx act st)) = gone st"
  by (simp add: dispatch_def)

lemma dispatch_accepted [simp]:
  "accepted (snd (dispatch ext w c g md sid tx act st)) = accepted st"
  by (simp add: dispatch_def)

lemma inner_try_registry [simp]:
  "active_connections (snd (inner_try ext w c g md sid tx act st)) = active_connections st"
proof -
  obtain r st' where d: "dispatch ext w c g md sid tx act st = (r, st')"
    by (cases "dispatch ext w c g md sid tx act st")
  have "active_connections st' = active_connections st"
    using dispatch_registry [of ext w c g md sid tx act st] d by simp
  then show ?thesis
    by (simp add: inner_try_def d split: sum.splits exn.splits)
qed

lemma inner_try_gone [simp]:
  "gone (snd (inner_try ext w c g md sid tx act st)) = gone st"
proof -
  obtain r st' where d: "dispatch ext w c g md sid tx act st = (r, st')"
    by (cases "dispatch ext w c g md sid tx act st")
  have "gone st' = gone st"
    using dispatch_gone [of ext w c g md sid tx act st] d by simp
  then show ?thesis
    by (simp add: inner_try_def d split: sum.splits exn.splits)
qed

lemma inner_try_accepted [simp]:
  "accepted (snd (inner_try ext w c g md sid tx act st)) = accepted st"
proof -
  obtain r st' where d: "dispatch ext w c g md sid tx act st = (r, st')"
    by (cases "dispatch ext w c g md sid tx act st")
  have "accepted st' = accepted st"
    using dispatch_accepted [of ext w c g md sid tx act st] d by simp
  then show ?thesis
    by (simp add: inner_try_def d split: sum.splits exn.splits)
qed

lemma frame_body_registry [simp]:
  "active_connections (snd (frame_body ext w c g data st)) = active_connections st"
  by (simp add: frame_body_def split: option.splits sum.splits)

lemma frame_body_gone [simp]:
  "gone (snd (frame_body ext w c g data st)) = gone st"
  by (simp add: frame_body_def split: option.splits sum.splits)

lemma frame_body_accepted [simp]:
  "accepted (snd (frame_body ext w c g data st)) = accepted st"
  by (simp add: frame_body_def split: option.splits sum.splits)

lemma handle_frame_registry [simp]:
  "active_connections (snd (handle_frame ext w c g data st)) = active_connections st"
proof -
  obtain r st' where d: "frame_body ext w c g data st = (r, st')"
    by (cases "frame_body ext w c g data st")
  have "active_connections st' = active_connections st"
    using frame_body_registry [of ext w c g data st] d by simp
  then show ?thesis
    by (simp add: handle_frame_def d split: sum.splits exn.splits)
qed

lemma handle_frame_gone [simp]:
  "gone (snd (handle_frame ext w c g data st)) = gone st"
proof -
  obtain r st' where d: "frame_body ext w c g data st = (r, st')"
    by (cases "frame_body ext w c g data st")
  have "gone st' = gone st"
    using frame_body_gone [of ext w c g data st] d by simp
  then show ?thesis
    by (simp add: handle_frame_def d split: sum.splits exn.splits)
qed

lemma handle_frame_accepted [simp]:
  "accepted (snd (handle_frame ext w c g data st)) = accepted st"
proof -
  obtain r st' where d: "frame_body ext w c g data st = (r, st')"
    by (cases "frame_body ext w c g data st")
  have "accepted st' = accepted st"
    using frame_body_accepted [of ext w c g data st] d by simp
  then show ?thesis
    by (simp add: handle_frame_def d split: sum.splits exn.splits)
qed

lemma step_no_empty:
  "active_connections st k \<noteq> Some [] \<Longrightarrow> active_connections (step ext ev st) k \<noteq> Some []"
  by (cases ev) (simp_all add: connect_no_empty disconnect_no_empty)

lemma run_no_empty:
  "active_connections st k \<noteq> Some [] \<Longrightarrow> active_connections (run ext evs st) k \<noteq> Some []"
  by (induction evs arbitrary: st) (simp_all add: step_no_empty)

text \<open>
  Claim C6. Starting from the empty registry, after any sequence of \<open>connect\<close> and
  \<open>disconnect\<close> calls (interleaved with processed frames and peers going away; a call
  that raises leaves the registry as it was), no conversation id is a key with an empty
  list of connections; and \<open>disconnect\<close> of the only connection of a conversation removes
  the key.
\<close>

theorem registry_has_no_empty_entry:
  "active_connections (run ext evs (new_world db)) c \<noteq> Some []
   \<and> active_connections
       (snd (disconnect w c (st\<lparr>active_connections := (active_connections st)(c \<mapsto> [w])\<rparr>))) c = None"
proof
  show "active_connections (run ext evs (new_world db)) c \<noteq> Some []"
    by (rule run_no_empty) (simp add: new_world_def)
  show "active_connections
       (snd (disconnect w c (st\<lparr>active_connections := (active_connections st)(c \<mapsto> [w])\<rparr>))) c = None"
    by (simp add: disconnect_def)
qed

theorem registry_has_no_empty_entry_witness:
  "active_connections
     (run sample_externals [Connect 1 5, Connect 2 5, Disconnect 1 5] (new_world no_rows)) 5 = Some [2]
   \<and> active_connections
     (run sample_externals [Connect 1 5, Connect 2 5, Disconnect 1 5, Disconnect 2 5] (new_world no_rows)) 5
       = None
   \<and> active_connections
     (run sample_externals [Connect 1 5, Connect 2 5, Disconnect 1 5, Disconnect 2 5] (new_world no_rows)) 5
       \<noteq> Some []"
proof -
  have a: "active_connections
     (run sample_externals [Connect 1 5, Connect 2 5, Disconnect 1 5] (new_world no_rows)) 5 = Some [2]"
    by (simp add: connect_def disconnect_def accept_def new_world_def)
  have b: "active_connections
     (run sample_externals [Connect 1 5, Connect 2 5, Disconnect 1 5, Disconnect 2 5] (new_world no_rows)) 5
       = None"
    by (simp add: connect_def disconnect_def accept_def new_world_def)
  show ?thesis
    using a b registry_has_no_empty_entry
      [of sample_externals "[Connect 1 5, Connect 2 5, Disconnect 1 5, Disconnect 2 5]" no_rows 5]
    by simp
qed

subsection \<open>Registered sockets are accepted sockets\<close>







text \<open>
  Claim C8 at a failing input: sockets 1 and 2 are registered for conversation 5 and
  socket 1 is unregistered. Unregistering socket 1 once more, while socket 2 keeps the
  entry of conversation 5 alive, raises \<open>ValueError\<close> instead of doing nothing. (For a
  conversation id without entry, \<open>disconnect\<close> does nothing, as claimed.)
\<close>

theorem disconnect_unregistered_raises:
  "active_connections
     (snd (disconnect 1 5 (snd (connect 2 5 (snd (connect 1 5 (new_world no_rows))))))) 5 = Some [2]
   \<and> fst (disconnect 1 5
       (snd (disconnect 1 5 (snd (connect 2 5 (snd (connect 1 5 (new_world no_rows)))))))) = Inl ValueError
   \<and> disconnect 1 5 (new_world no_rows) = (Inr (), new_world no_rows)"
  by (simp add: disconnect_def connect_def accept_def new_world_def)

text \<open>
  Claim C2, as stated, fails: \<open>broadcast\<close> has no handler around the send. With sockets
  1, 2, 3 registered for conversation 7 and the peer of 2 gone, the exception of the
  second send leaves \<open>broadcast\<close> and socket 3 is sent nothing.
\<close>

theorem broadcast_failure_counterexample:
  "active_connections three_members 7 = Some [1, 2, 3]
   \<and> fst (broadcast 7 (message_frame hello_row ''new_message'') three_members)
       = Inl WebSocketDisconnect
   \<and> sent (snd (broadcast 7 (message_frame hello_row ''new_message'') three_members)) 1
       = [message_frame hello_row ''new_message'']
   \<and> sent (snd (broadcast 7 (message_frame hello_row ''new_message'') three_members)) 3 = []"
  by (simp add: three_members_def broadcast_def send_text_def connect_def accept_def new_world_def)

text \<open>
  Claim C2, amended. \<open>broadcast\<close> sends the event to the entries of the conversation's
  list in list order and stops at the first entry whose send raises; that exception
  reaches the caller. So each socket receives the event once per entry it has before
  the first failing one; when no send fails, that is once per entry of the whole list
  (exactly once each when the list has no duplicates) and \<open>broadcast\<close> returns normally.
\<close>

theorem broadcast_delivery:
  assumes "active_connections st chat_id = Some conns"
  shows "broadcast chat_id message st =
     ((if set conns \<inter> gone st = {} then Inr () else Inl WebSocketDisconnect),
      st\<lparr>sent := (\<lambda>w. sent st w @
         replicate (count_list (takeWhile (\<lambda>c. c \<notin> gone st) conns) w) message)\<rparr>)"
  using assms by (simp add: broadcast_def broadcast_loop_eq)

theorem broadcast_delivery_witness:
  "active_connections (three_members\<lparr>gone := {}\<rparr>) 7 = Some [1, 2, 3]
   \<and> fst (broadcast 7 (message_frame hello_row ''new_message'') (three_members\<lparr>gone := {}\<rparr>)) = Inr ()
   \<and> sent (snd (broadcast 7 (message_frame hello_row ''new_message'') (three_members\<lparr>gone := {}\<rparr>))) 3
       = [message_frame hello_row ''new_message'']"
proof -
  have a: "active_connections (three_members\<lparr>gone := {}\<rparr>) 7 = Some [1, 2, 3]"
    by (simp add: three_members_def connect_def accept_def new_world_def)
  have s: "sent (three_members\<lparr>gone := {}\<rparr>) 3 = []"
    by (simp add: three_members_def connect_def accept_def new_world_def)
  show ?thesis
    using a s broadcast_delivery [OF a, of "message_frame hello_row ''new_message''"] by simp
qed

section \<open>Properties of the session handler\<close>

text \<open>
  Claim C9. Whatever the action, a frame that decodes to a dictionary whose
  \<open>sender_id\<close> or \<open>text\<close> is missing or falsy (the integer 0, the empty string, ...)
  is answered with the bad-message-format error frame on the submitting socket and
  nothing else happens: the database, the registry and what every other socket has
  been sent are unchanged, and the loop goes on. A frame that decodes to anything but
  a dictionary has no \<open>get\<close> and is answered with the internal-error frame in the same
  way. (When the submitting peer is gone the send raises and the state is unchanged
  altogether.) So nothing is dispatched unless both fields are there and truthy.
\<close>

theorem falsy_sender_or_text_rejected:
  "(py_get message_data (lit ''sender_id'') = Inr sender_id
      \<and> py_get message_data (lit ''text'') = Inr text
      \<and> (\<not> truthy sender_id \<or> \<not> truthy text)
    \<longrightarrow> handle_frame ext w c g (Some message_data) st =
           (if w \<in> gone st then (Inl WebSocketDisconnect, st)
            else (Inr (), st\<lparr>sent := (sent st)(w := sent st w @ [Error_frame Bad_message_format])\<rparr>)))
   \<and> (py_get message_data (lit ''sender_id'') = Inl e
    \<longrightarrow> handle_frame ext w c g (Some message_data) st =
           (if w \<in> gone st then (Inl WebSocketDisconnect, st)
            else (Inr (), st\<lparr>sent := (sent st)(w := sent st w @ [Error_frame Internal_server_error])\<rparr>)))"
proof (intro conjI impI)
  assume a: "py_get message_data (lit ''sender_id'') = Inr sender_id
      \<and> py_get message_data (lit ''text'') = Inr text
      \<and> (\<not> truthy sender_id \<or> \<not> truthy text)"
  then obtain items where md: "message_data = JObj items"
    by (cases message_data) simp_all
  have fb: "frame_body ext w c g (Some message_data) st = send_text w (Error_frame Bad_message_format) st"
    using a by (auto simp: frame_body_def md)
  show "handle_frame ext w c g (Some message_data) st =
           (if w \<in> gone st then (Inl WebSocketDisconnect, st)
            else (Inr (), st\<lparr>sent := (sent st)(w := sent st w @ [Error_frame Bad_message_format])\<rparr>))"
    by (simp add: handle_frame_def fb send_text_def)
next
  assume a: "py_get message_data (lit ''sender_id'') = Inl e"
  then have e: "e = AttributeError"
    by (cases message_data) simp_all
  have fb: "frame_body ext w c g (Some message_data) st = (Inl AttributeError, st)"
    using a e by (simp add: frame_body_def)
  show "handle_frame ext w c g (Some message_data) st =
           (if w \<in> gone st then (Inl WebSocketDisconnect, st)
            else (Inr (), st\<lparr>sent := (sent st)(w := sent st w @ [Error_frame Internal_server_error])\<rparr>))"
    by (simp add: handle_frame_def fb send_text_def)
qed

theorem falsy_sender_or_text_rejected_witness:
  "handle_frame sample_externals 1 7 False
     (Some (JObj [(lit ''action'', JStr (lit ''send_message'')),
                  (lit ''sender_id'', JInt 0),
                  (lit ''text'', JStr (lit ''hi''))])) (new_world chat7_db)
   = (Inr (), (new_world chat7_db)\<lparr>sent := (sent (new_world chat7_db))
        (1 := sent (new_world chat7_db) 1 @ [Error_frame Bad_message_format])\<rparr>)
  \<and> handle_frame sample_externals 1 7 False
     (Some (JObj [(lit ''action'', JStr (lit ''send_message'')),
                  (lit ''sender_id'', JInt 1),
                  (lit ''text'', JStr [])])) (new_world chat7_db)
   = (Inr (), (new_world chat7_db)\<lparr>sent := (sent (new_world chat7_db))
        (1 := sent (new_world chat7_db) 1 @ [Error_frame Bad_message_format])\<rparr>)
  \<and> handle_frame sample_externals 1 7 False (Some (JArr [])) (new_world chat7_db)
   = (Inr (), (new_world chat7_db)\<lparr>sent := (sent (new_world chat7_db))
        (1 := sent (new_world chat7_db) 1 @ [Error_frame Internal_server_error])\<rparr>)"
proof -
  have g: "(1::nat) \<notin> gone (new_world chat7_db)" by (simp add: new_world_def)
  have a: "handle_frame sample_externals 1 7 False
     (Some (JObj [(lit ''action'', JStr (lit ''send_message'')),
                  (lit ''sender_id'', JInt 0),
                  (lit ''text'', JStr (lit ''hi''))])) (new_world chat7_db)
   = (Inr (), (new_world chat7_db)\<lparr>sent := (sent (new_world chat7_db))
        (1 := sent (new_world chat7_db) 1 @ [Error_frame Bad_message_format])\<rparr>)"
    using falsy_sender_or_text_rejected [of "JObj [(lit ''action'', JStr (lit ''send_message'')),
                  (lit ''sender_id'', JInt 0),
                  (lit ''text'', JStr (lit ''hi''))]" "JInt 0" "JStr (lit ''hi'')"
                  sample_externals 1 7 False "new_world chat7_db"] g
    by (simp add: lit_def)
  have b: "handle_frame sample_externals 1 7 False
     (Some (JObj [(lit ''action'', JStr (lit ''send_message'')),
                  (lit ''sender_id'', JInt 1),
                  (lit ''text'', JStr [])])) (new_world chat7_db)
   = (Inr (), (new_world chat7_db)\<lparr>sent := (sent (new_world chat7_db))
        (1 := sent (new_world chat7_db) 1 @ [Error_frame Bad_message_format])\<rparr>)"
    using falsy_sender_or_text_rejected [of "JObj [(lit ''action'', JStr (lit ''send_message'')),
                  (lit ''sender_id'', JInt 1),
                  (lit ''text'', JStr [])]" "JInt 1" "JStr []"
                  sample_externals 1 7 False "new_world chat7_db"] g
    by (simp add: lit_def)
  have c: "handle_frame sample_externals 1 7 False (Some (JArr [])) (new_world chat7_db)
   = (Inr (), (new_world chat7_db)\<lparr>sent := (sent (new_world chat7_db))
        (1 := sent (new_world chat7_db) 1 @ [Error_frame Internal_server_error])\<rparr>)"
    using falsy_sender_or_text_rejected [where message_data = "JArr []" and e = AttributeError
                  and ext = sample_externals and w = 1 and c = 7 and g = False
                  and st = "new_world chat7_db"] g
    by simp
  show ?thesis using a b c by simp
qed

text \<open>
  Claim C4 at a failing input. The frame
  \<open>{"action": "frobnicate", "sender_id": 1, "text": "hi"}\<close> passes the check of sender
  and text and matches neither branch of the dispatch: the handler sends nothing to
  anybody and changes nothing, whatever the state.
\<close>

theorem unknown_action_is_dropped:
  "handle_frame ext w c g
     (Some (JObj [(lit ''action'', JStr (lit ''frobnicate'')),
                  (lit ''sender_id'', JInt 1),
                  (lit ''text'', JStr (lit ''hi''))])) st = (Inr (), st)"
  by (simp add: handle_frame_def frame_body_def inner_try_def dispatch_def lit_def)

lemma find_set_read:
  "find (\<lambda>m. m_id m = n) ms = Some m \<Longrightarrow>
   find (\<lambda>m. m_id m = n) (set_read n ms) = Some (m\<lparr>m_is_read := Some True\<rparr>)"
  by (induction ms) (auto split: if_splits)

text \<open>
  Claim C3, as stated, fails: the check of \<open>sender_id\<close> and \<open>text\<close> comes before the
  dispatch. The frame \<open>{"action": "mark_as_read", "message_id": 1}\<close>, with message 1
  stored and sockets 1 and 2 registered, is answered with the bad-message-format error
  on socket 2; nothing is broadcast and the message stays unread.
\<close>

theorem mark_as_read_needs_sender_and_text_counterexample:
  "find (\<lambda>m. m_id m = 1) (messages (store two_members)) = Some hello_row
   \<and> active_connections two_members 7 = Some [1, 2]
   \<and> fst (handle_frame sample_externals 2 7 False
        (Some (JObj [(lit ''action'', JStr (lit ''mark_as_read'')), (lit ''message_id'', JInt 1)]))
        two_members) = Inr ()
   \<and> sent (snd (handle_frame sample_externals 2 7 False
        (Some (JObj [(lit ''action'', JStr (lit ''mark_as_read'')), (lit ''message_id'', JInt 1)]))
        two_members)) 2 = [Error_frame Bad_message_format]
   \<and> sent (snd (handle_frame sample_externals 2 7 False
        (Some (JObj [(lit ''action'', JStr (lit ''mark_as_read'')), (lit ''message_id'', JInt 1)]))
        two_members)) 1 = []
   \<and> messages (store (snd (handle_frame sample_externals 2 7 False
        (Some (JObj [(lit ''action'', JStr (lit ''mark_as_read'')), (lit ''message_id'', JInt 1)]))
        two_members))) = [hello_row]
   \<and> m_is_read hello_row = Some False"
  by (simp add: handle_frame_def frame_body_def send_text_def two_members_def connect_def
      accept_def new_world_def chat7_db_def hello_row_def lit_def)

text \<open>
  Claim C3, amended. For a frame whose action is \<open>mark_as_read\<close>, whose \<open>sender_id\<close>
  and \<open>text\<close> are truthy and whose \<open>message_id\<close> is truthy and bound by the driver to
  the integer \<open>n\<close>, on a socket whose peer is there: if no message has id \<open>n\<close>, the
  message-not-found error frame is sent on the submitting socket only and the loop goes
  on; otherwise the message is marked read and, when no registered peer of the
  conversation is gone, every registered connection of the conversation receives the
  \<open>message_read\<close> event with the updated message, once per entry.
\<close>

theorem mark_as_read_broadcasts:
  assumes action: "map_of items (lit ''action'') = Some (JStr (lit ''mark_as_read''))"
      and sender: "map_of items (lit ''sender_id'') = Some sender_id" "truthy sender_id"
      and body: "map_of items (lit ''text'') = Some text" "truthy text"
      and mid: "map_of items (lit ''message_id'') = Some message_id" "truthy message_id"
               "sql_int ext message_id = Some n"
      and alive: "w \<notin> gone st"
                 "\<forall>conns. active_connections st c = Some conns \<longrightarrow> set conns \<inter> gone st = {}"
  shows "case find (\<lambda>m. m_id m = n) (messages (store st)) of
           None \<Rightarrow>
             handle_frame ext w c g (Some (JObj items)) st =
               (Inr (), st\<lparr>sent := (sent st)(w := sent st w @ [Error_frame Message_not_found])\<rparr>)
         | Some m \<Rightarrow>
             handle_frame ext w c g (Some (JObj items)) st =
               (Inr (), st\<lparr>store := (store st)\<lparr>messages := set_read n (messages (store st))\<rparr>,
                           sent := (\<lambda>w'. sent st w' @
                              replicate
                                (count_list (case active_connections st c of None \<Rightarrow> [] | Some conns \<Rightarrow> conns) w')
                                (message_frame (m\<lparr>m_is_read := Some True\<rparr>) ''message_read''))\<rparr>)"
proof (cases "find (\<lambda>m. m_id m = n) (messages (store st))")
  case None
  have m: "on_mark_as_read ext w c (JObj items) st =
             (Inr (), st\<lparr>sent := (sent st)(w := sent st w @ [Error_frame Message_not_found])\<rparr>)"
    using mid alive(1) None
    by (simp add: on_mark_as_read_def mark_message_as_read_def send_text_def)
  have d: "dispatch ext w c g (JObj items) sender_id text (JStr (lit ''mark_as_read'')) st =
             (Inr (), st\<lparr>sent := (sent st)(w := sent st w @ [Error_frame Message_not_found])\<rparr>)"
    by (simp add: dispatch_def m lit_def)
  have "handle_frame ext w c g (Some (JObj items)) st =
     (Inr (), st\<lparr>sent := (sent st)(w := sent st w @ [Error_frame Message_not_found])\<rparr>)"
    using action sender body
    by (simp add: handle_frame_def frame_body_def inner_try_def d)
  then show ?thesis using None by simp
next
  case (Some m)
  let ?st1 = "st\<lparr>store := (store st)\<lparr>messages := set_read n (messages (store st))\<rparr>\<rparr>"
  let ?msg = "message_frame (m\<lparr>m_is_read := Some True\<rparr>) ''message_read''"
  let ?res = "st\<lparr>store := (store st)\<lparr>messages := set_read n (messages (store st))\<rparr>,
                           sent := (\<lambda>w'. sent st w' @
                              replicate
                                (count_list (case active_connections st c of None \<Rightarrow> [] | Some conns \<Rightarrow> conns) w')
                                ?msg)\<rparr>"
  have b: "broadcast c ?msg ?st1 = (Inr (), ?res)"
  proof (cases "active_connections st c")
    case None
    then show ?thesis by (simp add: broadcast_def)
  next
    case (Some conns)
    then have ng: "set conns \<inter> gone st = {}" using alive(2) by simp
    then have tw: "takeWhile (\<lambda>c. c \<notin> gone st) conns = conns"
      by (auto intro!: takeWhile_eq_all_conv [THEN iffD2])
    show ?thesis using Some ng
      by (simp add: broadcast_def broadcast_loop_eq tw)
  qed
  have m: "on_mark_as_read ext w c (JObj items) st = (Inr (), ?res)"
    using mid Some b
    by (simp add: on_mark_as_read_def mark_message_as_read_def)
  have d: "dispatch ext w c g (JObj items) sender_id text (JStr (lit ''mark_as_read'')) st = (Inr (), ?res)"
    by (simp add: dispatch_def m lit_def)
  have "handle_frame ext w c g (Some (JObj items)) st = (Inr (), ?res)"
    using action sender body
    by (simp add: handle_frame_def frame_body_def inner_try_def d)
  then show ?thesis using Some by simp
qed

theorem mark_as_read_broadcasts_witness:
  "fst (handle_frame sample_externals 2 7 False
        (Some (JObj [(lit ''action'', JStr (lit ''mark_as_read'')), (lit ''message_id'', JInt 1),
                     (lit ''sender_id'', JInt 2), (lit ''text'', JStr (lit ''x''))]))
        two_members) = Inr ()
   \<and> sent (snd (handle_frame sample_externals 2 7 False
        (Some (JObj [(lit ''action'', JStr (lit ''mark_as_read'')), (lit ''message_id'', JInt 1),
                     (lit ''sender_id'', JInt 2), (lit ''text'', JStr (lit ''x''))]))
        two_members)) 1 = [message_frame (hello_row\<lparr>m_is_read := Some True\<rparr>) ''message_read'']
   \<and> sent (snd (handle_frame sample_externals 2 7 False
        (Some (JObj [(lit ''action'', JStr (lit ''mark_as_read'')), (lit ''message_id'', JInt 1),
                     (lit ''sender_id'', JInt 2), (lit ''text'', JStr (lit ''x''))]))
        two_members)) 2 = [message_frame (hello_row\<lparr>m_is_read := Some True\<rparr>) ''message_read'']
   \<and> messages (store (snd (handle_frame sample_externals 2 7 False
        (Some (JObj [(lit ''action'', JStr (lit ''mark_as_read'')), (lit ''message_id'', JInt 1),
                     (lit ''sender_id'', JInt 2), (lit ''text'', JStr (lit ''x''))]))
        two_members))) = [hello_row\<lparr>m_is_read := Some True\<rparr>]"
proof -
  have ac: "active_connections two_members 7 = Some [1, 2]"
    by (simp add: two_members_def connect_def accept_def new_world_def)
  have gn: "gone two_members = {}"
    by (simp add: two_members_def connect_def accept_def new_world_def)
  have sn: "sent two_members = (\<lambda>w. [])"
    by (simp add: two_members_def connect_def accept_def new_world_def)
  have ms: "messages (store two_members) = [hello_row]"
    by (simp add: two_members_def connect_def accept_def new_world_def chat7_db_def)
  have f: "find (\<lambda>m. m_id m = 1) (messages (store two_members)) = Some hello_row"
    by (simp add: ms hello_row_def)
  have "handle_frame sample_externals 2 7 False
        (Some (JObj [(lit ''action'', JStr (lit ''mark_as_read'')), (lit ''message_id'', JInt 1),
                     (lit ''sender_id'', JInt 2), (lit ''text'', JStr (lit ''x''))]))
        two_members =
      (Inr (), two_members\<lparr>store := (store two_members)\<lparr>messages := set_read 1 (messages (store two_members))\<rparr>,
                           sent := (\<lambda>w'. sent two_members w' @
                              replicate
                                (count_list (case active_connections two_members 7 of None \<Rightarrow> [] | Some conns \<Rightarrow> conns) w')
                                (message_frame (hello_row\<lparr>m_is_read := Some True\<rparr>) ''message_read''))\<rparr>)"
    using mark_as_read_broadcasts [of
        "[(lit ''action'', JStr (lit ''mark_as_read'')), (lit ''message_id'', JInt 1),
          (lit ''sender_id'', JInt 2), (lit ''text'', JStr (lit ''x''))]"
        "JInt 2" "JStr (lit ''x'')" "JInt 1" sample_externals 1 2 two_members 7 False] f
    by (simp add: lit_def sample_externals_def gn)
  then show ?thesis
    by (simp add: ac sn ms hello_row_def)
qed

section \<open>Duplicate messages\<close>

subsection \<open>The message table under the two database operations\<close>

lemma set_read_all:
  "list_all (\<lambda>m. message_hash_of ext (m_chat_id m) (m_sender_id m) (m_text m)
                  = Inr (m_message_hash m)) (set_read n ms)
   = list_all (\<lambda>m. message_hash_of ext (m_chat_id m) (m_sender_id m) (m_text m)
                  = Inr (m_message_hash m)) ms"
  by (induction ms) auto

lemma set_read_count:
  "length (filter (\<lambda>m. m_chat_id m = c \<and> m_sender_id m = s \<and> m_text m = t) (set_read n ms))
   = length (filter (\<lambda>m. m_chat_id m = c \<and> m_sender_id m = s \<and> m_text m = t) ms)"
  by (induction ms) auto

lemma mark_read_consistent:
  "hashes_consistent ext (snd (mark_message_as_read ext mid db)) = hashes_consistent ext db"
  by (simp add: mark_message_as_read_def hashes_consistent_def set_read_all
      split: option.splits)

lemma mark_read_count:
  "stored_count (snd (mark_message_as_read ext mid db)) c s t = stored_count db c s t"
  by (simp add: mark_message_as_read_def stored_count_def set_read_count split: option.splits)

lemma create_consistent:
  "hashes_consistent ext db \<Longrightarrow> hashes_consistent ext (snd (create_message ext mc db))"
  by (simp add: create_message_def hashes_consistent_def Let_def split: sum.splits)

text \<open>A stored row with the same fields makes the duplicate test of \<open>create_message\<close> fire.\<close>

lemma stored_hash_found:
  assumes "hashes_consistent ext db"
      and "0 < stored_count db c s t"
      and "message_hash_of ext c s t = Inr h"
  shows "list_ex (\<lambda>m. m_message_hash m = h) (messages db)"
proof -
  from assms(2) obtain m where m: "m \<in> set (messages db)"
      "m_chat_id m = c" "m_sender_id m = s" "m_text m = t"
    by (auto simp: stored_count_def filter_empty_conv)
  with assms(1) have "message_hash_of ext c s t = Inr (m_message_hash m)"
    by (auto simp: hashes_consistent_def list_all_iff)
  with assms(3) have "m_message_hash m = h" by simp
  with m(1) show ?thesis by (auto simp: list_ex_iff)
qed

lemma stored_hash_encodable:
  assumes "hashes_consistent ext db" and "0 < stored_count db c s t"
  shows "\<exists>h. message_hash_of ext c s t = Inr h"
proof -
  from assms(2) obtain m where m: "m \<in> set (messages db)"
      "m_chat_id m = c" "m_sender_id m = s" "m_text m = t"
    by (auto simp: stored_count_def filter_empty_conv)
  with assms(1) show ?thesis
    by (auto simp: hashes_consistent_def list_all_iff)
qed

lemma create_duplicate:
  assumes "hashes_consistent ext db"
      and "0 < stored_count db (mc_chat_id mc) (mc_sender_id mc) (mc_text mc)"
  shows "create_message ext mc db = (Inl TypeError, db)"
proof -
  obtain h where h: "message_hash_of ext (mc_chat_id mc) (mc_sender_id mc) (mc_text mc) = Inr h"
    using stored_hash_encodable [OF assms] by blast
  have "list_ex (\<lambda>m. m_message_hash m = h) (messages db)"
    using stored_hash_found [OF assms h] .
  then show ?thesis by (simp add: create_message_def h)
qed

lemma create_count_other:
  assumes "(mc_chat_id mc, mc_sender_id mc, mc_text mc) \<noteq> (c, s, t)"
  shows "stored_count (snd (create_message ext mc db)) c s t = stored_count db c s t"
  using assms by (auto simp: create_message_def stored_count_def Let_def split: sum.splits)

lemma create_count_kept:
  assumes "hashes_consistent ext db" and "stored_count db c s t = 1"
  shows "stored_count (snd (create_message ext mc db)) c s t = 1"
proof (cases "(mc_chat_id mc, mc_sender_id mc, mc_text mc) = (c, s, t)")
  case True
  then have "0 < stored_count db (mc_chat_id mc) (mc_sender_id mc) (mc_text mc)"
    using assms(2) by simp
  then have "create_message ext mc db = (Inl TypeError, db)"
    using create_duplicate [OF assms(1)] by blast
  then show ?thesis using assms(2) by simp
next
  case False
  then show ?thesis using create_count_other [OF False] assms(2) by simp
qed

lemma create_first:
  assumes "hashes_consistent ext db"
      and "messages (snd (create_message ext mc db)) \<noteq> messages db"
  shows "stored_count (snd (create_message ext mc db)) (mc_chat_id mc) (mc_sender_id mc) (mc_text mc) = 1"
proof -
  have z: "stored_count db (mc_chat_id mc) (mc_sender_id mc) (mc_text mc) = 0"
  proof (rule ccontr)
    assume "stored_count db (mc_chat_id mc) (mc_sender_id mc) (mc_text mc) \<noteq> 0"
    then have "create_message ext mc db = (Inl TypeError, db)"
      using create_duplicate [OF assms(1)] by blast
    with assms(2) show False by simp
  qed
  from assms(2) have "messages (snd (create_message ext mc db)) = messages db @
      [\<lparr>m_id = next_id db, m_chat_id = mc_chat_id mc,
        m_sender_id = mc_sender_id mc, m_text = mc_text mc,
        m_timestamp = utcnow db, m_is_read = mc_is_read mc,
        m_message_hash = projr (message_hash_of ext (mc_chat_id mc) (mc_sender_id mc) (mc_text mc))\<rparr>]"
    by (auto simp: create_message_def Let_def split: sum.splits if_splits)
  then show ?thesis using z by (simp add: stored_count_def)
qed

subsection \<open>What processing a frame does to the database\<close>

lemma inner_try_store:
  "store (snd (inner_try ext w c g md sid tx act st))
   = store (snd (dispatch ext w c g md sid tx act st))"
proof -
  obtain r st' where d: "dispatch ext w c g md sid tx act st = (r, st')"
    by (cases "dispatch ext w c g md sid tx act st")
  show ?thesis
    by (simp add: inner_try_def d split: sum.splits exn.splits)
qed

lemma handle_frame_store:
  "store (snd (handle_frame ext w c g data st)) = store (snd (frame_body ext w c g data st))"
proof -
  obtain r st' where d: "frame_body ext w c g data st = (r, st')"
    by (cases "frame_body ext w c g data st")
  show ?thesis
    by (simp add: handle_frame_def d split: sum.splits exn.splits)
qed

lemma on_send_message_store:
  "store (snd (on_send_message ext w c g sid tx st)) =
     (case get_chat (store st) c g of
        None \<Rightarrow> store st
      | Some target \<Rightarrow>
          (case new_MessageCreate ext target sid tx (Some False) of
             Inl e \<Rightarrow> store st
           | Inr mc \<Rightarrow> snd (create_message ext mc (store st))))"
  by (simp add: on_send_message_def split: option.splits sum.splits prod.splits)

lemma on_mark_as_read_store:
  "store (snd (on_mark_as_read ext w c md st)) = store st
   \<or> (\<exists>mid. store (snd (on_mark_as_read ext w c md st)) = snd (mark_message_as_read ext mid (store st)))"
proof (cases "py_get md (lit ''message_id'')")
  case (Inl e)
  then show ?thesis by (simp add: on_mark_as_read_def)
next
  case (Inr mid)
  show ?thesis
  proof (cases "truthy mid")
    case False
    then show ?thesis by (simp add: on_mark_as_read_def Inr)
  next
    case True
    obtain r db' where m: "mark_message_as_read ext mid (store st) = (r, db')"
      by (cases "mark_message_as_read ext mid (store st)")
    have "store (snd (on_mark_as_read ext w c md st)) = db'"
      using True by (simp add: on_mark_as_read_def Inr m split: sum.splits option.splits)
    then show ?thesis using m by (metis snd_conv)
  qed
qed

lemma dispatch_store_cases:
  "store (snd (dispatch ext w c g md sid tx act st)) = store st
   \<or> (\<exists>mc. store (snd (dispatch ext w c g md sid tx act st)) = snd (create_message ext mc (store st)))
   \<or> (\<exists>mid. store (snd (dispatch ext w c g md sid tx act st)) = snd (mark_message_as_read ext mid (store st)))"
proof -
  have s: "store (snd (on_send_message ext w c g sid tx st)) = store st
     \<or> (\<exists>mc. store (snd (on_send_message ext w c g sid tx st)) = snd (create_message ext mc (store st)))"
    by (auto simp: on_send_message_store split: option.splits sum.splits)
  show ?thesis
    using s on_mark_as_read_store [of ext w c md st] by (auto simp: dispatch_def)
qed

lemma frame_body_store_cases:
  "store (snd (frame_body ext w c g data st)) = store st
   \<or> (\<exists>mc. store (snd (frame_body ext w c g data st)) = snd (create_message ext mc (store st)))
   \<or> (\<exists>mid. store (snd (frame_body ext w c g data st)) = snd (mark_message_as_read ext mid (store st)))"
proof (cases data)
  case None
  then show ?thesis by (simp add: frame_body_def)
next
  case (Some md)
  show ?thesis
  proof (cases "\<exists>sid tx act. py_get md (lit ''sender_id'') = Inr sid \<and> py_get md (lit ''text'') = Inr tx
      \<and> py_get md (lit ''action'') = Inr act \<and> truthy sid \<and> truthy tx")
    case True
    then obtain sid tx act where f: "py_get md (lit ''sender_id'') = Inr sid"
        "py_get md (lit ''text'') = Inr tx" "py_get md (lit ''action'') = Inr act"
        "truthy sid" "truthy tx"
      by blast
    have "frame_body ext w c g data st = inner_try ext w c g md sid tx act st"
      using f by (simp add: frame_body_def Some)
    then show ?thesis
      using dispatch_store_cases [of ext w c g md sid tx act st] by (simp add: inner_try_store)
  next
    case False
    then have "store (snd (frame_body ext w c g data st)) = store st"
      by (auto simp: frame_body_def Some split: sum.splits)
    then show ?thesis by simp
  qed
qed

lemma handle_frame_consistent:
  assumes "hashes_consistent ext (store st)"
  shows "hashes_consistent ext (store (snd (handle_frame ext w c g data st)))"
  using frame_body_store_cases [of ext w c g data st] assms
  by (auto simp: handle_frame_store create_consistent mark_read_consistent)

lemma handle_frame_count:
  assumes "hashes_consistent ext (store st)" and "stored_count (store st) c s t = 1"
  shows "stored_count (store (snd (handle_frame ext w c' g data st))) c s t = 1"
  using frame_body_store_cases [of ext w c' g data st] assms
  by (auto simp: handle_frame_store create_count_kept mark_read_count)

lemma connect_store [simp]: "store (snd (connect w c st)) = store st"
  by (simp add: connect_def accept_def Let_def)

lemma disconnect_store [simp]: "store (snd (disconnect w c st)) = store st"
  by (simp add: disconnect_def Let_def split: option.splits)

lemma step_invariant:
  assumes "hashes_consistent ext (store st)" and "stored_count (store st) c s t = 1"
  shows "hashes_consistent ext (store (step ext ev st))
       \<and> stored_count (store (step ext ev st)) c s t = 1"
  using assms by (cases ev) (simp_all add: handle_frame_consistent handle_frame_count)

lemma run_invariant:
  assumes "hashes_consistent ext (store st)" and "stored_count (store st) c s t = 1"
  shows "hashes_consistent ext (store (run ext evs st))
       \<and> stored_count (store (run ext evs st)) c s t = 1"
  using assms
proof (induction evs arbitrary: st)
  case Nil
  then show ?case by simp
next
  case (Cons ev evs)
  then show ?case using step_invariant [of ext st c s t ev] by simp
qed

text \<open>The rows of every run from an empty message table carry their own hashes.\<close>

lemma run_consistent:
  "hashes_consistent ext (store st) \<Longrightarrow> hashes_consistent ext (store (run ext evs st))"
proof (induction evs arbitrary: st)
  case Nil
  then show ?case by simp
next
  case (Cons ev evs)
  have "hashes_consistent ext (store (step ext ev st))"
    using Cons.prems by (cases ev) (simp_all add: handle_frame_consistent)
  then show ?case using Cons.IH by simp
qed

lemma run_consistent_from_empty:
  "messages db = [] \<Longrightarrow> hashes_consistent ext (store (run ext evs (new_world db)))"
  by (rule run_consistent) (simp add: hashes_consistent_def new_world_def)

lemma send_frame_fields:
  assumes "is_send_frame ext db cid g data c s t"
  obtains items sv tv where "data = Some (JObj items)"
    "py_get (JObj items) (lit ''sender_id'') = Inr sv" "truthy sv" "pydantic_int ext sv = Some s"
    "py_get (JObj items) (lit ''text'') = Inr tv" "truthy tv" "pydantic_str ext tv = Some t"
    "py_get (JObj items) (lit ''action'') = Inr (JStr (lit ''send_message''))"
    "get_chat db cid g = Some (Some c)"
proof -
  from assms obtain items where d: "data = Some (JObj items)"
    by (auto simp: is_send_frame_def split: option.splits json.splits)
  from assms d obtain sv where sv: "map_of items (lit ''sender_id'') = Some sv" "truthy sv"
      "pydantic_int ext sv = Some s"
    by (auto simp: is_send_frame_def split: option.splits)
  from assms d obtain tv where tv: "map_of items (lit ''text'') = Some tv" "truthy tv"
      "pydantic_str ext tv = Some t"
    by (auto simp: is_send_frame_def split: option.splits)
  from assms d have a: "map_of items (lit ''action'') = Some (JStr (lit ''send_message''))"
      and gc: "get_chat db cid g = Some (Some c)"
    by (auto simp: is_send_frame_def split: option.splits)
  show thesis
    using that [of items sv tv] d sv tv a gc by simp
qed

lemma send_frame_body:
  assumes "is_send_frame ext (store st) cid g data c s t"
  shows "frame_body ext w cid g data st =
     (case create_message ext \<lparr>mc_chat_id = c, mc_sender_id = s, mc_text = t, mc_is_read = Some False\<rparr> (store st) of
        (Inl HTTPException, db') \<Rightarrow> (Inl AttributeError, st\<lparr>store := db'\<rparr>)
      | (Inl e, db') \<Rightarrow> send_text w (Error_frame Internal_server_error) (st\<lparr>store := db'\<rparr>)
      | (Inr message, db') \<Rightarrow>
          (case broadcast cid (message_frame message ''new_message'') (st\<lparr>store := db'\<rparr>) of
             (Inr u, st') \<Rightarrow> (Inr u, st')
           | (Inl HTTPException, st') \<Rightarrow> (Inl AttributeError, st')
           | (Inl e, st') \<Rightarrow> send_text w (Error_frame Internal_server_error) st'))"
proof -
  from assms obtain items sv tv where f: "data = Some (JObj items)"
    "py_get (JObj items) (lit ''sender_id'') = Inr sv" "truthy sv" "pydantic_int ext sv = Some s"
    "py_get (JObj items) (lit ''text'') = Inr tv" "truthy tv" "pydantic_str ext tv = Some t"
    "py_get (JObj items) (lit ''action'') = Inr (JStr (lit ''send_message''))"
    "get_chat (store st) cid g = Some (Some c)"
    by (rule send_frame_fields)
  have mc: "new_MessageCreate ext (Some c) sv tv (Some False)
      = Inr \<lparr>mc_chat_id = c, mc_sender_id = s, mc_text = t, mc_is_read = Some False\<rparr>"
    using f by (simp add: new_MessageCreate_def)
  have fb: "frame_body ext w cid g data st
      = inner_try ext w cid g (JObj items) sv tv (JStr (lit ''send_message'')) st"
    using f by (simp add: frame_body_def)
  show ?thesis
    unfolding fb inner_try_def dispatch_def on_send_message_def
    using f(9) mc
    by (simp split: prod.splits sum.splits exn.splits)
qed

lemma send_frame_store:
  assumes "is_send_frame ext (store st) cid g data c s t"
  shows "store (snd (handle_frame ext w cid g data st))
     = snd (create_message ext \<lparr>mc_chat_id = c, mc_sender_id = s, mc_text = t, mc_is_read = Some False\<rparr> (store st))"
proof -
  from assms obtain items sv tv where f: "data = Some (JObj items)"
    "py_get (JObj items) (lit ''sender_id'') = Inr sv" "truthy sv" "pydantic_int ext sv = Some s"
    "py_get (JObj items) (lit ''text'') = Inr tv" "truthy tv" "pydantic_str ext tv = Some t"
    "py_get (JObj items) (lit ''action'') = Inr (JStr (lit ''send_message''))"
    "get_chat (store st) cid g = Some (Some c)"
    by (rule send_frame_fields)
  have mc: "new_MessageCreate ext (Some c) sv tv (Some False)
      = Inr \<lparr>mc_chat_id = c, mc_sender_id = s, mc_text = t, mc_is_read = Some False\<rparr>"
    using f by (simp add: new_MessageCreate_def)
  have fb: "frame_body ext w cid g data st
      = inner_try ext w cid g (JObj items) sv tv (JStr (lit ''send_message'')) st"
    using f by (simp add: frame_body_def)
  show ?thesis
    by (simp add: handle_frame_store fb inner_try_store dispatch_def on_send_message_store f(9) mc)
qed

lemma send_frame_duplicate:
  assumes "is_send_frame ext (store st) cid g data c s t"
      and "hashes_consistent ext (store st)" and "0 < stored_count (store st) c s t"
  shows "handle_frame ext w cid g data st =
     (if w \<in> gone st then (Inl WebSocketDisconnect, st)
      else (Inr (), st\<lparr>sent := (sent st)(w := sent st w @ [Error_frame Internal_server_error])\<rparr>))"
proof -
  have "create_message ext \<lparr>mc_chat_id = c, mc_sender_id = s, mc_text = t, mc_is_read = Some False\<rparr> (store st)
      = (Inl TypeError, store st)"
    using create_duplicate [OF assms(2), of "\<lparr>mc_chat_id = c, mc_sender_id = s, mc_text = t, mc_is_read = Some False\<rparr>"]
      assms(3) by simp
  then have "frame_body ext w cid g data st = send_text w (Error_frame Internal_server_error) st"
    by (simp add: send_frame_body [OF assms(1)])
  then show ?thesis
    by (simp add: handle_frame_def send_text_def)
qed

text \<open>
  Claim C1. Let every stored row carry the hash of its own fields (as all rows written
  by \<open>create_message\<close> do), and let a \<open>send_message\<close> frame for chat \<open>c\<close>, sender \<open>s\<close>
  and text \<open>t\<close> be processed and persist a message. Then, after any further run of
  the server, a \<open>send_message\<close> frame for the same \<open>c\<close>, \<open>s\<close>, \<open>t\<close> on any socket
  \<open>w2\<close> leaves the database as it is, sends nothing to any other socket, and sends
  one error frame on \<open>w2\<close>, after which the loop goes on (when the peer of \<open>w2\<close> is
  gone the send raises instead and nothing changes at all). The number of stored
  messages with these fields is exactly one after the first frame and ever after.
  The error frame is the internal-error one: the duplicate branch of
  \<open>create_message\<close> ends in \<open>TypeError\<close>, which the handler of line 115 catches.
\<close>

theorem duplicate_send_rejected:
  assumes consistent: "hashes_consistent ext (store st0)"
      and first: "is_send_frame ext (store st0) cid1 g1 data1 c s t"
      and persisted: "messages (store (snd (handle_frame ext w1 cid1 g1 data1 st0))) \<noteq> messages (store st0)"
      and later: "st2 = run ext evs (snd (handle_frame ext w1 cid1 g1 data1 st0))"
      and second: "is_send_frame ext (store st2) cid2 g2 data2 c s t"
  shows "handle_frame ext w2 cid2 g2 data2 st2 =
           (if w2 \<in> gone st2 then (Inl WebSocketDisconnect, st2)
            else (Inr (), st2\<lparr>sent := (sent st2)(w2 := sent st2 w2 @ [Error_frame Internal_server_error])\<rparr>))
       \<and> store (snd (handle_frame ext w2 cid2 g2 data2 st2)) = store st2
       \<and> (\<forall>w. w \<noteq> w2 \<longrightarrow> sent (snd (handle_frame ext w2 cid2 g2 data2 st2)) w = sent st2 w)
       \<and> stored_count (store (snd (handle_frame ext w1 cid1 g1 data1 st0))) c s t = 1
       \<and> stored_count (store st2) c s t = 1"
proof -
  let ?mc = "\<lparr>mc_chat_id = c, mc_sender_id = s, mc_text = t, mc_is_read = Some False\<rparr>"
  let ?st1 = "snd (handle_frame ext w1 cid1 g1 data1 st0)"
  have s1: "store ?st1 = snd (create_message ext ?mc (store st0))"
    using send_frame_store [OF first] .
  have c1: "stored_count (store ?st1) c s t = 1"
    using create_first [OF consistent, of ?mc] persisted s1 by simp
  have h1: "hashes_consistent ext (store ?st1)"
    using create_consistent [OF consistent, of ?mc] s1 by simp
  have inv2: "hashes_consistent ext (store st2) \<and> stored_count (store st2) c s t = 1"
    unfolding later using run_invariant [OF h1 c1] .
  have dup: "handle_frame ext w2 cid2 g2 data2 st2 =
           (if w2 \<in> gone st2 then (Inl WebSocketDisconnect, st2)
            else (Inr (), st2\<lparr>sent := (sent st2)(w2 := sent st2 w2 @ [Error_frame Internal_server_error])\<rparr>))"
    using send_frame_duplicate [OF second] inv2 by simp
  show ?thesis using dup c1 inv2 by simp
qed

lemma fresh_store: "store fresh_chat7 = \<lparr>users = {1, 2}, chats = {7}, groups = Map.empty, messages = [],
               next_id = 1, utcnow = 0\<rparr>"
  by (simp add: fresh_chat7_def two_members_def connect_def accept_def new_world_def chat7_db_def)

lemma hi_hash: "message_hash_of sample_externals 7 1 (lit ''hi'') = Inr (lit ''7_1_hi'')"
  by (simp add: message_hash_of_def hash_input_def str_int_def lit_def utf8_char_def sample_externals_def)

theorem duplicate_send_rejected_witness:
  "stored_count (store (snd (handle_frame sample_externals 1 7 False hi_frame fresh_chat7))) 7 1 (lit ''hi'') = 1
   \<and> fst (handle_frame sample_externals 2 7 False hi_frame
       (run sample_externals [Peer_gone 3] (snd (handle_frame sample_externals 1 7 False hi_frame fresh_chat7)))) = Inr ()
   \<and> store (snd (handle_frame sample_externals 2 7 False hi_frame
       (run sample_externals [Peer_gone 3] (snd (handle_frame sample_externals 1 7 False hi_frame fresh_chat7)))))
     = store (snd (handle_frame sample_externals 1 7 False hi_frame fresh_chat7))"
proof -
  let ?st1 = "snd (handle_frame sample_externals 1 7 False hi_frame fresh_chat7)"
  let ?st2 = "run sample_externals [Peer_gone 3] ?st1"
  have cons: "hashes_consistent sample_externals (store fresh_chat7)"
    by (simp add: hashes_consistent_def fresh_store)
  have first: "is_send_frame sample_externals (store fresh_chat7) 7 False hi_frame 7 1 (lit ''hi'')"
    by (simp add: is_send_frame_def hi_frame_def fresh_store get_chat_def sample_externals_def lit_def)
  have s1: "store ?st1 = \<lparr>users = {1, 2}, chats = {7}, groups = Map.empty,
      messages = [\<lparr>m_id = 1, m_chat_id = 7, m_sender_id = 1, m_text = lit ''hi'', m_timestamp = 0,
                   m_is_read = Some False, m_message_hash = lit ''7_1_hi''\<rparr>],
      next_id = 2, utcnow = 0\<rparr>"
    by (simp add: send_frame_store [OF first] create_message_def hi_hash fresh_store Let_def)
  have persisted: "messages (store ?st1) \<noteq> messages (store fresh_chat7)"
    using s1 by (simp add: fresh_store)
  have s2: "store ?st2 = store ?st1" by simp
  have g2: "2 \<notin> gone ?st2"
    by (simp add: fresh_chat7_def two_members_def connect_def accept_def new_world_def)
  have second: "is_send_frame sample_externals (store ?st2) 7 False hi_frame 7 1 (lit ''hi'')"
    using s1 by (simp add: is_send_frame_def hi_frame_def get_chat_def sample_externals_def lit_def)
  show ?thesis
    using duplicate_send_rejected [OF cons first persisted refl second, of 2] g2 s2
    by simp
qed

section \<open>The fingerprint input\<close>

declare digits10.simps [simp del]

lemma decimal_value_snoc: "decimal_value (ds @ [d]) = 10 * decimal_value ds + (d - 48)"
  by (simp add: decimal_value_def)

lemma decimal_value_digits10: "decimal_value (digits10 n) = n"
proof (induction n rule: digits10.induct)
  case (1 n)
  show ?case
  proof (cases "n < 10")
    case True
    then show ?thesis by (simp add: digits10.simps [of n] decimal_value_def)
  next
    case False
    then have "decimal_value (digits10 (n div 10)) = n div 10" using 1 by simp
    then show ?thesis using False
      by (simp add: digits10.simps [of n] decimal_value_snoc)
  qed
qed

lemma digits10_inj: "digits10 n = digits10 m \<Longrightarrow> n = m"
  by (metis decimal_value_digits10)

lemma digits10_range: "x \<in> set (digits10 n) \<Longrightarrow> 48 \<le> x \<and> x \<le> 57"
proof (induction n rule: digits10.induct)
  case (1 n)
  show ?case
  proof (cases "n < 10")
    case True
    then show ?thesis using 1(2) by (simp add: digits10.simps [of n])
  next
    case False
    then show ?thesis using 1 by (auto simp: digits10.simps [of n])
  qed
qed

lemma str_int_chars: "x \<in> set (str_int i) \<Longrightarrow> x = 45 \<or> (48 \<le> x \<and> x \<le> 57)"
  by (auto simp: str_int_def dest: digits10_range split: if_splits)

lemma str_int_no_separator: "95 \<notin> set (str_int i)"
  using str_int_chars [of 95 i] by auto

lemma str_int_inj: "str_int i = str_int j \<Longrightarrow> i = j"
proof -
  assume e: "str_int i = str_int j"
  have no45: "\<And>n. 45 \<notin> set (digits10 n)"
    using digits10_range by fastforce
  show "i = j"
  proof (cases "i < 0")
    case True
    show ?thesis
    proof (cases "j < 0")
      case True
      with \<open>i < 0\<close> e have "digits10 (nat (- i)) = digits10 (nat (- j))"
        by (simp add: str_int_def)
      then have "nat (- i) = nat (- j)" by (rule digits10_inj)
      with True \<open>i < 0\<close> show ?thesis by simp
    next
      case False
      with \<open>i < 0\<close> e have "45 # digits10 (nat (- i)) = digits10 (nat j)"
        by (simp add: str_int_def)
      then have "45 \<in> set (digits10 (nat j))" by (metis list.set_intros(1))
      with no45 show ?thesis by simp
    qed
  next
    case False
    show ?thesis
    proof (cases "j < 0")
      case True
      with False e have "digits10 (nat i) = 45 # digits10 (nat (- j))"
        by (simp add: str_int_def)
      then have "45 \<in> set (digits10 (nat i))" by (metis list.set_intros(1))
      with no45 show ?thesis by simp
    next
      case jn: False
      with False e have "digits10 (nat i) = digits10 (nat j)"
        by (simp add: str_int_def)
      then have "nat i = nat j" by (rule digits10_inj)
      with False jn show ?thesis by simp
    qed
  qed
qed

lemma split_at_separator:
  assumes "xs @ 95 # r = ys @ 95 # r'" and "(95::nat) \<notin> set xs" and "95 \<notin> set ys"
  shows "xs = ys \<and> r = r'"
proof -
  have a: "takeWhile (\<lambda>x. x \<noteq> 95) (xs @ 95 # r) = xs"
    using assms(2) by (induction xs) auto
  have b: "takeWhile (\<lambda>x. x \<noteq> 95) (ys @ 95 # r') = ys"
    using assms(3) by (induction ys) auto
  from a b assms(1) have "xs = ys" by simp
  with assms(1) show ?thesis by simp
qed

lemma hash_input_inj:
  "(hash_input c s t = hash_input c' s' t') = (c = c' \<and> s = s' \<and> t = t')"
proof
  assume e: "hash_input c s t = hash_input c' s' t'"
  then have e1: "str_int c @ 95 # (str_int s @ 95 # t) = str_int c' @ 95 # (str_int s' @ 95 # t')"
    by (simp add: hash_input_def lit_def)
  from split_at_separator [OF e1 str_int_no_separator str_int_no_separator]
  have c: "str_int c = str_int c'" and e2: "str_int s @ 95 # t = str_int s' @ 95 # t'"
    by simp_all
  from split_at_separator [OF e2 str_int_no_separator str_int_no_separator]
  have s: "str_int s = str_int s'" and t: "t = t'" by simp_all
  show "c = c' \<and> s = s' \<and> t = t'"
    using str_int_inj [OF c] str_int_inj [OF s] t by simp
next
  assume "c = c' \<and> s = s' \<and> t = t'"
  then show "hash_input c s t = hash_input c' s' t'" by simp
qed

lemma b2: "a < 0x800 \<Longrightarrow> a div 0x40 < (0x20::nat)" by arith
lemma b3: "a < 0x10000 \<Longrightarrow> a div 0x1000 < (0x10::nat)" by arith

lemma utf8_char_shape:
  assumes "utf8_char a = Some x"
  shows "x \<noteq> [] \<and> length x = utf8_width (hd x)"
proof -
  consider (one) "a < 0x80" "x = [a]"
    | (two) "0x80 \<le> a" "a < 0x800" "x = [0xC0 + a div 0x40, 0x80 + a mod 0x40]"
    | (three) "0x800 \<le> a" "a < 0x10000"
        "x = [0xE0 + a div 0x1000, 0x80 + a div 0x40 mod 0x40, 0x80 + a mod 0x40]"
    | (four) "0x10000 \<le> a"
        "x = [0xF0 + a div 0x40000, 0x80 + a div 0x1000 mod 0x40,
             0x80 + a div 0x40 mod 0x40, 0x80 + a mod 0x40]"
    using assms by (auto simp: utf8_char_def split: if_splits)
  then show ?thesis
  proof cases
    case one
    then show ?thesis by (simp add: utf8_width_def)
  next
    case two
    then show ?thesis using b2 [of a] by (simp add: utf8_width_def)
  next
    case three
    then show ?thesis using b3 [of a] by (simp add: utf8_width_def)
  next
    case four
    then show ?thesis by (simp add: utf8_width_def)
  qed
qed

lemma from_div_mod:
  "(a::nat) div 0x40 = b div 0x40 \<Longrightarrow> a mod 0x40 = b mod 0x40 \<Longrightarrow> a = b"
  by (metis div_mult_mod_eq)

lemma div_4096: "(a::nat) div 0x1000 = a div 0x40 div 0x40"
  by (simp add: div_mult2_eq [symmetric])

lemma div_262144: "(a::nat) div 0x40000 = a div 0x40 div 0x40 div 0x40"
  by (simp add: div_mult2_eq [symmetric])

lemma utf8_char_inj:
  assumes "utf8_char a = Some x" and "utf8_char b = Some x"
  shows "a = b"
proof -
  consider (one) "a < 0x80" "x = [a]"
    | (two) "0x80 \<le> a" "a < 0x800" "x = [0xC0 + a div 0x40, 0x80 + a mod 0x40]"
    | (three) "0x800 \<le> a" "a < 0x10000"
        "x = [0xE0 + a div 0x1000, 0x80 + a div 0x40 mod 0x40, 0x80 + a mod 0x40]"
    | (four) "0x10000 \<le> a"
        "x = [0xF0 + a div 0x40000, 0x80 + a div 0x1000 mod 0x40,
             0x80 + a div 0x40 mod 0x40, 0x80 + a mod 0x40]"
    using assms(1) by (auto simp: utf8_char_def split: if_splits)
  then show ?thesis
  proof cases
    case one
    with assms(2) show ?thesis by (auto simp: utf8_char_def split: if_splits)
  next
    case two
    with assms(2) have "a div 0x40 = b div 0x40" "a mod 0x40 = b mod 0x40"
      by (auto simp: utf8_char_def split: if_splits)
    then show ?thesis by (rule from_div_mod)
  next
    case three
    with assms(2) have e: "a div 0x1000 = b div 0x1000" "a div 0x40 mod 0x40 = b div 0x40 mod 0x40"
        "a mod 0x40 = b mod 0x40"
      by (auto simp: utf8_char_def split: if_splits)
    from e(1) have d1: "a div 0x40 div 0x40 = b div 0x40 div 0x40" by (simp only: div_4096)
    from d1 e(2) have d2: "a div 0x40 = b div 0x40" by (rule from_div_mod)
    from d2 e(3) show ?thesis by (rule from_div_mod)
  next
    case four
    with assms(2) have e: "a div 0x40000 = b div 0x40000"
        "a div 0x1000 mod 0x40 = b div 0x1000 mod 0x40"
        "a div 0x40 mod 0x40 = b div 0x40 mod 0x40" "a mod 0x40 = b mod 0x40"
      by (auto simp: utf8_char_def split: if_splits)
    from e(1) have d0: "a div 0x40 div 0x40 div 0x40 = b div 0x40 div 0x40 div 0x40"
      by (simp only: div_262144)
    from e(2) have m0: "a div 0x40 div 0x40 mod 0x40 = b div 0x40 div 0x40 mod 0x40"
      by (simp only: div_4096)
    from d0 m0 have d1: "a div 0x40 div 0x40 = b div 0x40 div 0x40" by (rule from_div_mod)
    from d1 e(3) have d2: "a div 0x40 = b div 0x40" by (rule from_div_mod)
    from d2 e(4) show ?thesis by (rule from_div_mod)
  qed
qed

lemma utf8_char_prefix_free:
  assumes "utf8_char a = Some x" and "utf8_char b = Some y" and "x @ r = y @ r'"
  shows "a = b \<and> r = r'"
proof -
  from utf8_char_shape [OF assms(1)] have x: "x \<noteq> []" "length x = utf8_width (hd x)" by simp_all
  from utf8_char_shape [OF assms(2)] have y: "y \<noteq> []" "length y = utf8_width (hd y)" by simp_all
  from assms(3) x(1) y(1) have "hd x = hd y"
    by (metis hd_append2)
  with x(2) y(2) have "length x = length y" by simp
  with assms(3) have xy: "x = y" and rr: "r = r'" by simp_all
  from assms(1,2) xy have "a = b" using utf8_char_inj by simp
  with rr show ?thesis by simp
qed

lemma encode_inj:
  "encode xs = Inr bs \<Longrightarrow> encode ys = Inr bs \<Longrightarrow> xs = ys"
proof (induction xs arbitrary: ys bs)
  case Nil
  show ?case
  proof (cases ys)
    case Nil
    then show ?thesis by simp
  next
    case (Cons b ys')
    with Nil.prems obtain y r' where y: "utf8_char b = Some y" "y @ r' = []"
      by (auto split: option.splits sum.splits)
    with utf8_char_shape [OF y(1)] show ?thesis by simp
  qed
next
  case (Cons a xs)
  from Cons.prems(1) obtain x r where x: "utf8_char a = Some x" "encode xs = Inr r" "bs = x @ r"
    by (auto split: option.splits sum.splits)
  show ?case
  proof (cases ys)
    case Nil
    with Cons.prems(2) x(3) have "x @ r = []" by simp
    with utf8_char_shape [OF x(1)] show ?thesis by simp
  next
    case (Cons b ys')
    with Cons.prems(2) obtain y r' where y: "utf8_char b = Some y" "encode ys' = Inr r'" "bs = y @ r'"
      by (auto split: option.splits sum.splits)
    from x(3) y(3) have "x @ r = y @ r'" by simp
    from utf8_char_prefix_free [OF x(1) y(1) this] have ab: "a = b" and rr: "r = r'" by simp_all
    from Cons.IH [OF x(2)] y(2) rr have "xs = ys'" by simp
    with ab Cons show ?thesis by simp
  qed
qed

text \<open>
  Claim C5. The string that is hashed determines chat id, sender id and text: two
  triples give the same string only if they are the same triple. Hence distinct triples
  whose strings can be encoded give distinct byte sequences, and if two distinct triples
  ever get the same fingerprint, the hash function maps two different byte sequences to
  the same digest.
\<close>

theorem fingerprint_input_injective:
  "(hash_input c s t = hash_input c' s' t') = (c = c' \<and> s = s' \<and> t = t')
   \<and> ((c, s, t) \<noteq> (c', s', t') \<and> encode (hash_input c s t) = Inr b
        \<and> encode (hash_input c' s' t') = Inr b' \<longrightarrow> b \<noteq> b')
   \<and> ((c, s, t) \<noteq> (c', s', t') \<and> message_hash_of ext c s t = Inr h
        \<and> message_hash_of ext c' s' t' = Inr h
        \<longrightarrow> (\<exists>x y. x \<noteq> y \<and> sha256_hexdigest ext x = sha256_hexdigest ext y))"
proof (intro conjI impI)
  show "(hash_input c s t = hash_input c' s' t') = (c = c' \<and> s = s' \<and> t = t')"
    by (rule hash_input_inj)
next
  assume a: "(c, s, t) \<noteq> (c', s', t') \<and> encode (hash_input c s t) = Inr b
        \<and> encode (hash_input c' s' t') = Inr b'"
  show "b \<noteq> b'"
  proof
    assume "b = b'"
    with a have "hash_input c s t = hash_input c' s' t'"
      using encode_inj by blast
    with a show False by (simp add: hash_input_inj)
  qed
next
  assume a: "(c, s, t) \<noteq> (c', s', t') \<and> message_hash_of ext c s t = Inr h
        \<and> message_hash_of ext c' s' t' = Inr h"
  then obtain x y where x: "encode (hash_input c s t) = Inr x" "sha256_hexdigest ext x = h"
      and y: "encode (hash_input c' s' t') = Inr y" "sha256_hexdigest ext y = h"
    by (auto simp: message_hash_of_def split: sum.splits)
  have "x \<noteq> y"
  proof
    assume "x = y"
    with x(1) y(1) have "hash_input c s t = hash_input c' s' t'"
      using encode_inj by blast
    with a show False by (simp add: hash_input_inj)
  qed
  with x(2) y(2) have "x \<noteq> y \<and> sha256_hexdigest ext x = sha256_hexdigest ext y"
    by simp
  then show "\<exists>x y. x \<noteq> y \<and> sha256_hexdigest ext x = sha256_hexdigest ext y"
    by blast
qed

theorem fingerprint_input_injective_witness:
  "encode (hash_input 1 23 (lit ''x'')) = Inr [49, 95, 50, 51, 95, 120]
   \<and> encode (hash_input 12 3 (lit ''x'')) = Inr [49, 50, 95, 51, 95, 120]
   \<and> hash_input 1 23 (lit ''x'') \<noteq> hash_input 12 3 (lit ''x'')
   \<and> message_hash_of colliding_externals 1 23 (lit ''x'') = Inr []
   \<and> message_hash_of colliding_externals 12 3 (lit ''x'') = Inr []
   \<and> (\<exists>x y. x \<noteq> y \<and> sha256_hexdigest colliding_externals x = sha256_hexdigest colliding_externals y)"
proof -
  have e1: "encode (hash_input 1 23 (lit ''x'')) = Inr [49, 95, 50, 51, 95, 120]"
    by (simp add: hash_input_def str_int_def digits10.simps lit_def utf8_char_def)
  have e2: "encode (hash_input 12 3 (lit ''x'')) = Inr [49, 50, 95, 51, 95, 120]"
    by (simp add: hash_input_def str_int_def digits10.simps lit_def utf8_char_def)
  have h1: "message_hash_of colliding_externals 1 23 (lit ''x'') = Inr []"
    by (simp add: message_hash_of_def e1 colliding_externals_def)
  have h2: "message_hash_of colliding_externals 12 3 (lit ''x'') = Inr []"
    by (simp add: message_hash_of_def e2 colliding_externals_def)
  have d: "((1::int), (23::int), lit ''x'') \<noteq> (12, 3, lit ''x'')" by simp
  show ?thesis
    using fingerprint_input_injective [of 1 23 "lit ''x''" 12 3 "lit ''x''"
        "[49, 95, 50, 51, 95, 120]" "[49, 50, 95, 51, 95, 120]" colliding_externals "[]"]
      e1 e2 h1 h2 d
    by simp
qed

section \<open>The connection route\<close>

text \<open>
  Claim C10 at a failing input. With a valid token, \<open>chat_id=7\<close> and \<open>group_id=9\<close> the
  route does not close the socket: it accepts and takes the \<open>chat_id\<close> branch. But the
  call there passes the keyword \<open>user_email\<close>, which \<open>websocket_endpoint\<close> does not
  have: \<open>TypeError\<close> leaves the route before \<open>connect\<close> runs, and socket 3 is never
  registered for conversation 7.
\<close>

theorem route_with_both_ids_raises:
  "websocket_route sample_externals 3
     \<lparr>q_token = Some (lit ''good''), q_chat_id = Some (lit ''7''), q_group_id = Some (lit ''9'')\<rparr>
     [hi_frame] two_members = (Raised TypeError, two_members\<lparr>accepted := insert 3 (accepted two_members)\<rparr>)
   \<and> active_connections (snd (websocket_route sample_externals 3
       \<lparr>q_token = Some (lit ''good''), q_chat_id = Some (lit ''7''), q_group_id = Some (lit ''9'')\<rparr>
       [hi_frame] two_members)) 7 = Some [1, 2]
   \<and> active_connections two_members 7 = Some [1, 2]
   \<and> active_connections two_members 9 = None"
  by (simp add: websocket_route_def get_current_user_websocket_def call_websocket_endpoint_def
      route_result_of_def accept_def sample_externals_def two_members_def connect_def
      new_world_def lit_def)

end
